theory Spec2Isabelle
  imports Main "HOL-Library.Sublist"
begin

section \<open>Python strings\<close>

text \<open>
  The agent module (\<^verbatim>\<open>agents/openai_agents.py\<close>) works on Python \<^verbatim>\<open>str\<close> values.
  They are modelled as \<^typ>\<open>string\<close>, read as ASCII text: the case conversions touch the
  letters A-Z and a-z only, \<^verbatim>\<open>\s\<close> is the ASCII white space that \<^verbatim>\<open>str.isspace\<close> accepts
  (codes 9-13 and 28-32) and \<^verbatim>\<open>\w\<close> is a letter, a digit or the underscore. A character
  above code 127 is kept as it is and counts as neither.
\<close>

definition is_upper :: "char \<Rightarrow> bool" where
  "is_upper c = (let n = (of_char c :: nat) in 65 \<le> n \<and> n \<le> 90)"

definition is_lower :: "char \<Rightarrow> bool" where
  "is_lower c = (let n = (of_char c :: nat) in 97 \<le> n \<and> n \<le> 122)"

definition is_digit :: "char \<Rightarrow> bool" where
  "is_digit c = (let n = (of_char c :: nat) in 48 \<le> n \<and> n \<le> 57)"

definition is_alpha :: "char \<Rightarrow> bool" where
  "is_alpha c = (is_upper c \<or> is_lower c)"

definition is_word :: "char \<Rightarrow> bool" where
  "is_word c = (is_alpha c \<or> is_digit c \<or> c = CHR ''_'')"

definition is_space :: "char \<Rightarrow> bool" where
  "is_space c = (let n = (of_char c :: nat) in (9 \<le> n \<and> n \<le> 13) \<or> (28 \<le> n \<and> n \<le> 32))"

definition lower_char :: "char \<Rightarrow> char" where
  "lower_char c = (if is_upper c then char_of ((of_char c :: nat) + 32) else c)"

definition upper_char :: "char \<Rightarrow> char" where
  "upper_char c = (if is_lower c then char_of ((of_char c :: nat) - 32) else c)"

definition lower :: "string \<Rightarrow> string" where
  "lower s = map lower_char s"

definition upper :: "string \<Rightarrow> string" where
  "upper s = map upper_char s"

text \<open>\<^verbatim>\<open>str.title\<close>: a letter that follows a letter is lowered, any other letter is raised.\<close>

fun title_from :: "bool \<Rightarrow> string \<Rightarrow> string" where
  "title_from prev [] = []"
| "title_from prev (c # cs) =
     (if is_alpha c then (if prev then lower_char c else upper_char c) # title_from True cs
      else c # title_from False cs)"

definition title :: "string \<Rightarrow> string" where
  "title s = title_from False s"

text \<open>\<^verbatim>\<open>sub in s\<close> on strings: \<open>sub\<close> occurs in \<open>s\<close> as a contiguous piece.\<close>

fun contains :: "string \<Rightarrow> string \<Rightarrow> bool" where
  "contains sub [] = (sub = [])"
| "contains sub (c # cs) = (prefix sub (c # cs) \<or> contains sub cs)"

text \<open>\<^verbatim>\<open>s.replace(old, new)\<close>: every occurrence, left to right, without overlap.\<close>

function replace :: "string \<Rightarrow> string \<Rightarrow> string \<Rightarrow> string" where
  "replace old new [] = (if old = [] then new else [])"
| "replace old new (c # cs) =
     (if old = [] then new @ c # replace old new cs
      else if prefix old (c # cs) then new @ replace old new (drop (length old) (c # cs))
      else c # replace old new cs)"
  by pat_completeness auto
termination
  by (relation "measure (\<lambda>(old, new, s). length s)") auto

text \<open>\<^verbatim>\<open>sep.join(xs)\<close> and \<^verbatim>\<open>s.strip()\<close>.\<close>

fun join :: "string \<Rightarrow> string list \<Rightarrow> string" where
  "join sep [] = []"
| "join sep [x] = x"
| "join sep (x # y # ys) = x @ sep @ join sep (y # ys)"

definition strip :: "string \<Rightarrow> string" where
  "strip s = rev (dropWhile is_space (rev (dropWhile is_space s)))"

text \<open>\<^verbatim>\<open>str(n)\<close> for a natural number, as the f-strings print counts and lengths.\<close>

function str_nat :: "nat \<Rightarrow> string" where
  "str_nat n = (if n < 10 then [char_of (48 + n)] else str_nat (n div 10) @ [char_of (48 + n mod 10)])"
  by pat_completeness auto
termination
  by (relation "measure (\<lambda>n. n)") auto

definition sq :: string where
  "sq = [CHR 0x27]"

definition dq :: string where
  "dq = [CHR 0x22]"

section \<open>Python dictionaries\<close>

text \<open>
  A \<^verbatim>\<open>dict\<close> keeps its keys in insertion order, and an assignment to a key that is
  present replaces the value where the key stands. It is an association list.
\<close>

fun dict_set :: "'k \<Rightarrow> 'v \<Rightarrow> ('k \<times> 'v) list \<Rightarrow> ('k \<times> 'v) list" where
  "dict_set k v [] = [(k, v)]"
| "dict_set k v (p # ps) = (if fst p = k then (k, v) # ps else p # dict_set k v ps)"

section \<open>The data frame\<close>

text \<open>
  What the fallbacks read of a pandas \<^verbatim>\<open>DataFrame\<close>, column by column, in column order:
  the label, how \<^verbatim>\<open>select_dtypes\<close> classes its dtype (\<^verbatim>\<open>include=['number']\<close>,
  \<^verbatim>\<open>include=['object']\<close>), \<^verbatim>\<open>str(dtype)\<close>, the number of nulls, whether any value is
  not null, the largest and least value as \<^verbatim>\<open>float(df[col].max())\<close> and
  \<^verbatim>\<open>float(df[col].min())\<close> give them (\<open>None\<close> when the conversion raises; the
  comparison against 2147483647 is exact on the float of an integer, so the values are kept
  as integers), and the largest \<^verbatim>\<open>len(str(v))\<close> (\<open>None\<close> when computing it raises).
  Labels are strings; a frame may repeat a label.
\<close>

datatype dkind = Number | Object | OtherKind

record column =
  col_name :: string
  col_kind :: dkind
  col_dtype :: string
  null_count :: nat
  notna_any :: bool
  max_val :: "int option"
  min_val :: "int option"
  str_len_max :: "nat option"

type_synonym frame = "column list"

definition df_columns :: "frame \<Rightarrow> string list" where
  "df_columns df = map col_name df"

definition select_dtypes :: "dkind \<Rightarrow> frame \<Rightarrow> string list" where
  "select_dtypes k df = map col_name (filter (\<lambda>c. col_kind c = k) df)"

text \<open>\<^verbatim>\<open>df[col]\<close> is a series when the label is unique and a frame when it is repeated.\<close>

datatype selection = Series column | SubFrame | Missing

definition getitem :: "frame \<Rightarrow> string \<Rightarrow> selection" where
  "getitem df col =
     (case filter (\<lambda>c. col_name c = col) df of
        [] \<Rightarrow> Missing
      | [c] \<Rightarrow> Series c
      | _ \<Rightarrow> SubFrame)"

section \<open>The schema-split fallback\<close>

record dim_info =
  columns :: "string list"
  primary_key :: string

record analysis =
  fact_columns :: "string list"
  dimensions :: "(string \<times> dim_info) list"
  foreign_keys :: "(string \<times> string) list"
  reasoning :: string

definition dimension_keywords :: "(string \<times> string list) list" where
  "dimension_keywords =
     [(''DimPatient'', [''patient'']),
      (''DimDoctor'', [''doctor'', ''physician'']),
      (''DimHospital'', [''hospital'', ''clinic'', ''facility'']),
      (''DimDate'', [''date'', ''time'']),
      (''DimMedication'', [''medication'', ''drug'', ''medicine'']),
      (''DimLocation'', [''location'', ''address'', ''city'', ''state'', ''zip'']),
      (''DimDepartment'', [''department'', ''division''])]"

definition is_id_column :: "string \<Rightarrow> bool" where
  "is_id_column col = (contains ''id'' (lower col) \<and> suffix ''_id'' (lower col))"

definition matches_any :: "string list \<Rightarrow> string \<Rightarrow> bool" where
  "matches_any keywords col = list_ex (\<lambda>k. contains k (lower col)) keywords"

text \<open>One round of the loop over \<^verbatim>\<open>dimension_keywords.items()\<close>.\<close>

definition keyword_step ::
  "string list \<Rightarrow> string list \<Rightarrow> (string \<times> dim_info) list \<Rightarrow> string \<times> string list
     \<Rightarrow> (string \<times> dim_info) list" where
  "keyword_step text_columns id_columns dims entry =
     (let matching_cols = filter (matches_any (snd entry)) text_columns in
      case matching_cols of
        [] \<Rightarrow> dims
      | m # _ \<Rightarrow>
          (let pk_candidates = filter (matches_any (snd entry)) id_columns;
               pk = (case pk_candidates of [] \<Rightarrow> m | p # _ \<Rightarrow> p)
           in dict_set (fst entry) \<lparr>columns = matching_cols, primary_key = pk\<rparr> dims))"

definition synth_dim_name :: "string \<Rightarrow> string" where
  "synth_dim_name id_col = ''Dim'' @ title (replace ''_'' '''' (replace ''_ID'' '''' id_col))"

text \<open>One round of the loop over \<^verbatim>\<open>id_columns[:5]\<close>.\<close>

definition id_step ::
  "string list \<Rightarrow> (string \<times> dim_info) list \<Rightarrow> string \<Rightarrow> (string \<times> dim_info) list" where
  "id_step text_columns dims id_col =
     (let related_cols =
            filter (\<lambda>col. contains (lower (replace ''_ID'' '''' id_col)) (lower col)) text_columns
      in if related_cols \<noteq> []
         then dict_set (synth_dim_name id_col)
                \<lparr>columns = id_col # take 10 related_cols, primary_key = id_col\<rparr> dims
         else dims)"

text \<open>One round of the loop that fills \<^verbatim>\<open>foreign_keys\<close>.\<close>

definition fk_step ::
  "string list \<Rightarrow> (string \<times> string) list \<Rightarrow> string \<times> dim_info \<Rightarrow> (string \<times> string) list" where
  "fk_step all_columns fks entry =
     (if primary_key (snd entry) \<in> set all_columns
      then dict_set (primary_key (snd entry)) (fst entry) fks
      else fks)"

definition fallback_reasoning :: "nat \<Rightarrow> string \<Rightarrow> string" where
  "fallback_reasoning n csv_filename =
     ''Fallback analysis created using heuristics. Analyzed '' @ str_nat n
       @ '' columns from CSV file: '' @ csv_filename"

definition create_fallback_analysis :: "frame \<Rightarrow> string \<Rightarrow> analysis" where
  "create_fallback_analysis df csv_filename =
     (let all_columns = df_columns df;
          id_columns = filter is_id_column all_columns;
          numeric_columns = filter (\<lambda>col. col \<notin> set id_columns) (select_dtypes Number df);
          text_columns = select_dtypes Object df;
          dims1 = foldl (keyword_step text_columns id_columns) [] dimension_keywords;
          dims2 = (if dims1 = [] \<and> id_columns \<noteq> []
                   then foldl (id_step text_columns) dims1 (take 5 id_columns)
                   else dims1);
          fks = foldl (fk_step all_columns) [] dims2;
          remaining_cols =
            filter (\<lambda>col. col \<notin> set numeric_columns
                      \<and> \<not> list_ex (\<lambda>d. col \<in> set (columns (snd d))) dims2) all_columns;
          fact1 = numeric_columns @ remaining_cols;
          fact2 = (if fact1 = [] then take 20 numeric_columns else fact1);
          last_dim = (case id_columns of
                        [] \<Rightarrow> None
                      | first_id # _ \<Rightarrow> if dims2 = [] then Some first_id else None);
          dims3 = (case last_dim of
                     None \<Rightarrow> dims2
                   | Some first_id \<Rightarrow>
                       dict_set (synth_dim_name first_id)
                         \<lparr>columns = first_id # take 10 text_columns, primary_key = first_id\<rparr> dims2);
          fks3 = (case last_dim of
                    None \<Rightarrow> fks
                  | Some first_id \<Rightarrow> dict_set first_id (synth_dim_name first_id) fks)
      in \<lparr>fact_columns = (if fact2 \<noteq> [] then take 50 fact2 else take 10 all_columns),
          dimensions = dims3,
          foreign_keys = fks3,
          reasoning = fallback_reasoning (length all_columns) csv_filename\<rparr>)"

section \<open>The type-inference fallback\<close>

record type_decision =
  sql_type :: string
  adf_type :: string
  nullable :: bool
  col_reasoning :: string

text \<open>The \<^verbatim>\<open>'int' in dtype\<close> branch, with its own \<^verbatim>\<open>try\<close>.\<close>

definition int_types :: "column \<Rightarrow> string \<times> string" where
  "int_types c =
     (if notna_any c then
        (case max_val c of
           None \<Rightarrow> (''INT'', ''integer'')
         | Some mx \<Rightarrow>
             (case min_val c of
                None \<Rightarrow> (''INT'', ''integer'')
              | Some mn \<Rightarrow>
                  if \<bar>mx\<bar> > 2147483647 \<or> \<bar>mn\<bar> > 2147483647
                  then (''BIGINT'', ''long'')
                  else (''INT'', ''integer'')))
      else (''INT'', ''integer''))"

text \<open>The string branch: the SQL type and the \<^verbatim>\<open>max_length\<close> left behind.\<close>

definition string_types :: "column \<Rightarrow> string \<times> nat" where
  "string_types c =
     (if notna_any c then
        (case str_len_max c of
           None \<Rightarrow> (''NVARCHAR(255)'', 0)
         | Some max_length \<Rightarrow>
             (if max_length > 4000 then (''NVARCHAR(MAX)'', max_length)
              else if max_length > 255
                then (''NVARCHAR('' @ str_nat (min (max_length * 2) 4000) @ '')'', max_length)
              else (''NVARCHAR('' @ str_nat (max (max_length * 2) 50) @ '')'', max_length)))
      else (''NVARCHAR(255)'', 0))"

definition dimension_columns_of :: "analysis option \<Rightarrow> (string \<times> string) list" where
  "dimension_columns_of agent1 =
     (case agent1 of
        None \<Rightarrow> []
      | Some a \<Rightarrow>
          foldl (\<lambda>acc d. foldl (\<lambda>acc2 col. dict_set col (fst d) acc2) acc (columns (snd d)))
            [] (dimensions a))"

definition series_decision :: "analysis option \<Rightarrow> column \<Rightarrow> type_decision" where
  "series_decision agent1 c =
     (let dt = col_dtype c;
          facts = (case agent1 of None \<Rightarrow> [] | Some a \<Rightarrow> fact_columns a);
          dimcols = dimension_columns_of agent1;
          types =
            (if contains ''int'' dt then (fst (int_types c), snd (int_types c), 0)
             else if contains ''float'' dt then (''DECIMAL(18,2)'', ''decimal(18,2)'', 0)
             else if contains ''datetime'' dt \<or> contains ''date'' dt then (''DATETIME'', ''timestamp'', 0)
             else if contains ''bool'' dt then (''BIT'', ''boolean'', 0)
             else (fst (string_types c), ''string'', snd (string_types c)));
          max_length = snd (snd types);
          r1 = ''Fallback: Detected from pandas dtype: '' @ dt @ '', nulls: '' @ str_nat (null_count c);
          r2 = (if col_name c \<in> set facts then r1 @ '', fact table column''
                else (case map_of dimcols (col_name c) of
                        Some d \<Rightarrow> r1 @ '', dimension table ('' @ d @ '')''
                      | None \<Rightarrow> r1));
          r3 = (if max_length > 0 then r2 @ '', max_length: '' @ str_nat max_length else r2)
      in \<lparr>sql_type = fst types, adf_type = fst (snd types),
          nullable = (null_count c > 0), col_reasoning = r3\<rparr>)"

definition default_decision :: type_decision where
  "default_decision =
     \<lparr>sql_type = ''NVARCHAR(255)'', adf_type = ''string'', nullable = True,
      col_reasoning = ''Fallback: Default type''\<rparr>"

text \<open>
  The body of the loop over \<^verbatim>\<open>df.columns\<close>. On a repeated label \<^verbatim>\<open>df[col]\<close> is a frame,
  \<^verbatim>\<open>.dtype\<close> raises and the handler of the loop body stores the default decision.
\<close>

definition column_decision :: "frame \<Rightarrow> analysis option \<Rightarrow> string \<Rightarrow> type_decision" where
  "column_decision df agent1 col =
     (case getitem df col of
        Series c \<Rightarrow> series_decision agent1 c
      | SubFrame \<Rightarrow> default_decision
      | Missing \<Rightarrow> default_decision)"

definition create_fallback_datatypes ::
  "frame \<Rightarrow> analysis option \<Rightarrow> (string \<times> type_decision) list" where
  "create_fallback_datatypes df agent1 =
     foldl (\<lambda>acc col. dict_set col (column_decision df agent1 col) acc) [] (df_columns df)"

section \<open>Python values\<close>

text \<open>
  The JSON-like values that travel between the agents: the decision of Agent 3A, the
  verdict of Agent 3C, the analysis of Agent 1 as the model service returns it.
\<close>

datatype pyval =
    PNone
  | PBool bool
  | PInt int
  | PStr string
  | PList "pyval list"
  | PDict "(pyval \<times> pyval) list"



definition py_dict :: "(string \<times> pyval) list \<Rightarrow> pyval" where
  "py_dict kvs = PDict (map (\<lambda>kv. (PStr (fst kv), snd kv)) kvs)"

definition py_strs :: "string list \<Rightarrow> pyval" where
  "py_strs xs = PList (map PStr xs)"

datatype exn =
    ValueError string
  | AttributeError
  | TypeError
  | UnboundLocalError
  | ServiceError string
  | Wrapped string exn

section \<open>Regular expressions of the validator\<close>

text \<open>
  Every pattern of the module is matched by a function written for it. All of them are
  compiled with \<^verbatim>\<open>re.IGNORECASE\<close> where the source says so; a greedy \<^verbatim>\<open>\s*\<close>, \<^verbatim>\<open>\w+\<close> or
  \<^verbatim>\<open>[^)]*\<close> that is followed by a character outside its class never gives a character back,
  so it is a plain \<open>dropWhile\<close>.
\<close>

definition match_ci :: "string \<Rightarrow> string \<Rightarrow> string option" where
  "match_ci lit s =
     (if length lit \<le> length s \<and> lower (take (length lit) s) = lower lit
      then Some (drop (length lit) s) else None)"

definition skip_spaces :: "string \<Rightarrow> string" where
  "skip_spaces s = dropWhile is_space s"

text \<open>\<^verbatim>\<open>re.search\<close>: the first position, from the left, at which the pattern matches.\<close>

fun search :: "(string \<Rightarrow> 'a option) \<Rightarrow> string \<Rightarrow> 'a option" where
  "search m [] = m []"
| "search m (c # cs) = (case m (c # cs) of Some r \<Rightarrow> Some r | None \<Rightarrow> search m cs)"

text \<open>
  \<^verbatim>\<open>re.findall\<close> and \<^verbatim>\<open>re.finditer\<close>: matches from the left, without overlap. The matcher
  gives the captured group and the text after the match; after an empty match the scan
  moves on by one character.
\<close>

function findall :: "(string \<Rightarrow> ('a \<times> string) option) \<Rightarrow> string \<Rightarrow> 'a list" where
  "findall m s =
     (case m s of
        Some r \<Rightarrow>
          (if length (snd r) < length s then fst r # findall m (snd r)
           else (case s of [] \<Rightarrow> [fst r] | _ # cs \<Rightarrow> fst r # findall m cs))
      | None \<Rightarrow> (case s of [] \<Rightarrow> [] | _ # cs \<Rightarrow> findall m cs))"
  by pat_completeness auto
termination
  by (relation "measure (\<lambda>(m, s). length s)") auto

text \<open>\<^verbatim>\<open>def\s+deploy_complete_solution\s*\([^)]*\)\<close>: the matched text.\<close>

definition match_deploy :: "string \<Rightarrow> string option" where
  "match_deploy s =
     (case match_ci ''def'' s of
        None \<Rightarrow> None
      | Some r1 \<Rightarrow>
          (if r1 = skip_spaces r1 then None
           else (case match_ci ''deploy_complete_solution'' (skip_spaces r1) of
                   None \<Rightarrow> None
                 | Some r2 \<Rightarrow>
                     (case skip_spaces r2 of
                        [] \<Rightarrow> None
                      | c # r3 \<Rightarrow>
                          (if c \<noteq> CHR ''('' then None
                           else (case dropWhile (\<lambda>x. x \<noteq> CHR '')'') r3 of
                                   [] \<Rightarrow> None
                                 | _ # r4 \<Rightarrow> Some (take (length s - length r4) s)))))))"

text \<open>\<^verbatim>\<open>\bword\b\<close> searched in a text; \<open>prev\<close> says whether a word character stands before.\<close>

fun search_word :: "string \<Rightarrow> bool \<Rightarrow> string \<Rightarrow> bool" where
  "search_word w prev [] = False"
| "search_word w prev (c # cs) =
     ((\<not> prev \<and> (case match_ci w (c # cs) of
                    None \<Rightarrow> False
                  | Some r \<Rightarrow> (case r of [] \<Rightarrow> True | d # _ \<Rightarrow> \<not> is_word d)))
      \<or> search_word w (is_word c) cs)"

definition sql_type_names :: "string list" where
  "sql_type_names =
     [''nvarchar'', ''varchar'', ''datetime2'', ''datetime'', ''char'', ''nchar'', ''text'', ''ntext'']"

text \<open>
  The alternation \<^verbatim>\<open>(nvarchar|varchar|...)\<close>, in its order; with \<open>paren\<close> it must be
  followed by \<^verbatim>\<open>\s*\(\<close>, and an alternative that is not is given up for the next one.
\<close>

fun match_sql_type :: "bool \<Rightarrow> string list \<Rightarrow> string \<Rightarrow> (string \<times> string) option" where
  "match_sql_type paren [] s = None"
| "match_sql_type paren (a # alts) s =
     (case match_ci a s of
        None \<Rightarrow> match_sql_type paren alts s
      | Some r \<Rightarrow>
          (if \<not> paren then Some (take (length a) s, r)
           else (case skip_spaces r of
                   [] \<Rightarrow> match_sql_type paren alts s
                 | c # r' \<Rightarrow>
                     if c = CHR ''('' then Some (take (length a) s, r')
                     else match_sql_type paren alts s)))"

text \<open>\<^verbatim>\<open>as\s+(...)\<close> at a position.\<close>

definition match_as_type :: "bool \<Rightarrow> string \<Rightarrow> (string \<times> string) option" where
  "match_as_type paren s =
     (case match_ci ''as'' s of
        None \<Rightarrow> None
      | Some r \<Rightarrow>
          (if r = skip_spaces r then None
           else match_sql_type paren sql_type_names (skip_spaces r)))"

text \<open>
  \<^verbatim>\<open>[^)]*\<close> followed by \<^verbatim>\<open>as\s+(...)\<close>: the greedy class is taken as long as it can be, so of
  the positions before the next closing parenthesis the last one that matches is taken.
\<close>

fun match_last_as :: "bool \<Rightarrow> string \<Rightarrow> (string \<times> string) option" where
  "match_last_as paren [] = None"
| "match_last_as paren (c # cs) =
     (if c = CHR '')'' then None
      else (case match_last_as paren cs of
              Some r \<Rightarrow> Some r
            | None \<Rightarrow> match_as_type paren (c # cs)))"

text \<open>\<^verbatim>\<open>cast\s*\([^)]*as\s+(...)\<close>, and the same followed by \<^verbatim>\<open>\s*\(\<close>.\<close>

definition match_cast :: "bool \<Rightarrow> string \<Rightarrow> (string \<times> string) option" where
  "match_cast paren s =
     (case match_ci ''cast'' s of
        None \<Rightarrow> None
      | Some r \<Rightarrow>
          (case skip_spaces r of
             [] \<Rightarrow> None
           | c # r' \<Rightarrow> if c = CHR ''('' then match_last_as paren r' else None))"

text \<open>\<^verbatim>\<open>derive\s*\(\s*\)\s*~>\<close> at a position.\<close>

definition match_empty_derive :: "string \<Rightarrow> unit option" where
  "match_empty_derive s =
     (case match_ci ''derive'' s of
        None \<Rightarrow> None
      | Some r1 \<Rightarrow>
          (case skip_spaces r1 of
             [] \<Rightarrow> None
           | c1 # r2 \<Rightarrow>
               (if c1 \<noteq> CHR ''('' then None
                else (case skip_spaces r2 of
                        [] \<Rightarrow> None
                      | c2 # r3 \<Rightarrow>
                          (if c2 \<noteq> CHR '')'' then None
                           else if prefix ''~>'' (skip_spaces r3) then Some () else None)))))"

text \<open>\<^verbatim>\<open>Transformation\(name=['\"]Load\w+['\"]\)\<close> at a position.\<close>

definition is_quote :: "char \<Rightarrow> bool" where
  "is_quote c = (c = CHR 0x27 \<or> c = CHR 0x22)"

definition match_load_transformation :: "string \<Rightarrow> unit option" where
  "match_load_transformation s =
     (case match_ci ''Transformation(name='' s of
        None \<Rightarrow> None
      | Some r1 \<Rightarrow>
          (case r1 of
             [] \<Rightarrow> None
           | q1 # r2 \<Rightarrow>
               (if \<not> is_quote q1 then None
                else (case match_ci ''Load'' r2 of
                        None \<Rightarrow> None
                      | Some r3 \<Rightarrow>
                          (if takeWhile is_word r3 = [] then None
                           else (case dropWhile is_word r3 of
                                   q2 # c # _ \<Rightarrow>
                                     if is_quote q2 \<and> c = CHR '')'' then Some () else None
                                 | _ \<Rightarrow> None))))))"

section \<open>Agent 3C: the validator\<close>

text \<open>
  What \<^verbatim>\<open>compile(generated_code, '<string>', 'exec')\<close> does is a parameter of the model:
  the code compiles, or \<^verbatim>\<open>SyntaxError\<close> is raised with its text, or another exception is
  raised (a \<^verbatim>\<open>ValueError\<close> on a null byte, for one).
\<close>

datatype compile_result = Compiles | SyntaxError string | CompileRaises string

text \<open>
  What the model service does with the validation prompt, from the call to the parsed
  reply: an exception with its text, a JSON value (read whole or cut out of the reply), or
  a reply that is no JSON.
\<close>

datatype vreply = ReplyRaises string | ReplyJson pyval | ReplyNotJson

definition issue_missing_param :: "string \<Rightarrow> string" where
  "issue_missing_param p =
     ''The '' @ sq @ ''deploy_complete_solution'' @ sq @ '' method is missing required parameter: ''
       @ sq @ p @ sq"

definition issue_no_deploy :: string where
  "issue_no_deploy =
     ''The '' @ sq @ ''deploy_complete_solution'' @ sq
       @ '' method definition was not found in the generated code''"

definition issue_sql_type :: "string \<Rightarrow> string" where
  "issue_sql_type t =
     ''SQL type '' @ sq @ t @ sq
       @ '' found in cast operation - ADF only supports: string, integer, long, double, decimal, boolean, timestamp, date''"

definition issue_syntax :: "string \<Rightarrow> string" where
  "issue_syntax e = ''Python syntax error: '' @ e"

definition issue_empty_derive :: string where
  "issue_empty_derive =
     ''Empty derive() transformation found - derive() must have expressions or be removed. This causes ''
       @ sq @ ''missing input stream'' @ sq @ '' error in ADF.''"

definition issue_load_name :: string where
  "issue_load_name =
     ''Load* name found in transformations array - Load* names are sinks, not transformations. This causes ''
       @ sq @ ''missing input stream'' @ sq @ '' error in ADF.''"

text \<open>Pre-check 1: the signature of \<^verbatim>\<open>deploy_complete_solution\<close>.\<close>

record signature_check =
  found :: bool
  has_sql_config :: bool
  has_blob_config :: bool

definition check_signature :: "string \<Rightarrow> signature_check" where
  "check_signature code =
     (case search match_deploy code of
        None \<Rightarrow> \<lparr>found = False, has_sql_config = False, has_blob_config = False\<rparr>
      | Some method_signature \<Rightarrow>
          \<lparr>found = True,
           has_sql_config = search_word ''sql_config'' False method_signature,
           has_blob_config = search_word ''blob_config'' False method_signature\<rparr>)"

definition signature_issues :: "signature_check \<Rightarrow> string list" where
  "signature_issues sc =
     (if found sc then
        (if has_sql_config sc then [] else [issue_missing_param ''sql_config''])
        @ (if has_blob_config sc then [] else [issue_missing_param ''blob_config''])
      else [issue_no_deploy])"

text \<open>
  Pre-check 2: SQL types in casts. Both patterns are run over the code, one after the
  other; a type is reported when it is met for the first time, as it is spelled.
\<close>

definition sql_types_in_cast :: "string \<Rightarrow> string list" where
  "sql_types_in_cast code =
     foldl (\<lambda>seen t. if t \<in> set seen then seen else seen @ [t]) []
       (findall (match_cast False) code @ findall (match_cast True) code)"

definition has_empty_derive :: "string \<Rightarrow> bool" where
  "has_empty_derive code = (search match_empty_derive code \<noteq> None)"

definition has_load_transformation :: "string \<Rightarrow> bool" where
  "has_load_transformation code = (search match_load_transformation code \<noteq> None)"

definition pre_check_issues :: "string \<Rightarrow> string list \<Rightarrow> string list" where
  "pre_check_issues code syntax_issue =
     signature_issues (check_signature code)
     @ map issue_sql_type (sql_types_in_cast code)
     @ syntax_issue
     @ (if has_empty_derive code then [issue_empty_derive] else [])
     @ (if has_load_transformation code then [issue_load_name] else [])"

definition pre_check_details :: "string \<Rightarrow> bool \<Rightarrow> string list \<Rightarrow> pyval" where
  "pre_check_details code syntax_errors issues =
     (let sc = check_signature code;
          types = sql_types_in_cast code;
          both = (has_sql_config sc \<and> has_blob_config sc)
      in py_dict
        [(''pre_check_results'', py_dict
            [(''method_signature'', py_dict
                [(''found'', PBool (found sc)),
                 (''has_sql_config'', PBool (has_sql_config sc)),
                 (''has_blob_config'', PBool (has_blob_config sc))]),
             (''syntax_errors'', PBool syntax_errors),
             (''sql_types_in_cast'', py_strs types)]),
         (''code_structure'', py_dict
            [(''has_all_methods'', PBool (found sc)),
             (''missing_methods'', py_strs (if found sc then [] else [''deploy_complete_solution''])),
             (''syntax_valid'', PBool (\<not> syntax_errors))]),
         (''deployment_blockers'', py_dict
            [(''sql_types_in_cast'', PBool (types \<noteq> [])),
             (''sql_types_found'', py_strs types),
             (''syntax_errors'', PBool syntax_errors),
             (''missing_imports'', PBool False),
             (''forbidden_operations'', PBool False)]),
         (''method_signatures'', py_dict
            [(''deploy_complete_solution_valid'', PBool (found sc \<and> both)),
             (''has_sql_config'', PBool (has_sql_config sc)),
             (''has_blob_config'', PBool (has_blob_config sc)),
             (''signature_issues'', py_strs (if both then [] else issues))])])"

definition verdict :: "bool \<Rightarrow> string list \<Rightarrow> string \<Rightarrow> pyval \<Rightarrow> pyval" where
  "verdict ok issues feedback details =
     py_dict [(''is_valid'', PBool ok), (''issues'', py_strs issues),
              (''feedback'', PStr feedback), (''validation_details'', details)]"

text \<open>The handler of the outer \<^verbatim>\<open>try\<close>: any exception becomes a failing verdict.\<close>

definition validation_error :: "string \<Rightarrow> pyval" where
  "validation_error e =
     verdict False [''Validation error: '' @ e]
       (''Validation agent encountered an error: '' @ e @ ''. Please review the code manually.'')
       (py_dict [])"

text \<open>
  \<^verbatim>\<open>validate_generated_code\<close>. The client is \<open>None\<close> when \<^verbatim>\<open>self.client is None\<close>; when it
  is there it is what the service answers to the prompt built around the code. The other
  arguments of the method only go into that prompt.
\<close>

definition validate_generated_code ::
  "(string \<Rightarrow> vreply) option \<Rightarrow> (string \<Rightarrow> compile_result) \<Rightarrow> string \<Rightarrow> pyval" where
  "validate_generated_code client py_compile generated_code =
     (case client of
        None \<Rightarrow>
          verdict True [] ''Validation skipped - OpenAI client not available'' (py_dict [])
      | Some ask \<Rightarrow>
          (if generated_code = [] \<or> strip generated_code = []
           then verdict False [''Generated code is empty'']
                  ''The generated code is empty. Please regenerate the code.'' (py_dict [])
           else
             (case py_compile generated_code of
                CompileRaises e \<Rightarrow> validation_error e
              | outcome \<Rightarrow>
                  (let syntax_issue =
                         (case outcome of SyntaxError e \<Rightarrow> [issue_syntax e] | _ \<Rightarrow> []);
                       issues = pre_check_issues generated_code syntax_issue
                   in if issues \<noteq> []
                      then verdict False issues
                             (''Pre-validation checks failed:\<newline>''
                                @ join ''\<newline>'' (map (\<lambda>issue. ''  - '' @ issue) issues))
                             (pre_check_details generated_code (syntax_issue \<noteq> []) issues)
                      else
                        (case ask generated_code of
                           ReplyRaises e \<Rightarrow> validation_error e
                         | ReplyJson result_json \<Rightarrow> result_json
                         | ReplyNotJson \<Rightarrow>
                             verdict False [''Validation agent output could not be parsed'']
                               ''The validation agent encountered an error. Please review the code manually.''
                               (py_dict []))))))"

section \<open>Agent 3: the regeneration loop\<close>





text \<open>
  What the loop prints, as a trace: the banner of an attempt, the line after Agent 3B
  returned code, and the verdict Agent 3C returned. Attempts are numbered from 1, as they
  are printed and returned.
\<close>

datatype event = Attempt nat | Generated nat string | Validated nat pyval









section \<open>Normalizing the dimensions of Agent 1\<close>











section \<open>The transform data flow script\<close>

text \<open>
  \<^verbatim>\<open>_generate_transform_dataflow_script\<close> on well-typed arguments: column names are
  strings, a dimension is a name with its columns and primary key (an absent key of the
  dictionary is the empty list or the empty string, its default), and \<^verbatim>\<open>column_types\<close> maps
  a cleaned column name to its \<^verbatim>\<open>sql_type\<close> (the empty string when the entry has none).
  The pieces appended to \<^verbatim>\<open>script_parts\<close> are kept with what they are: the kind of step,
  the table they belong to, the stream they read and the name they give to their output.
\<close>

datatype step_kind = SourceStep | SelectStep | AggregateStep | CastStep | DeriveStep | SinkStep

record node =
  node_kind :: step_kind
  node_table :: string
  node_input :: string
  node_name :: string
  node_text :: string

definition clean :: "string \<Rightarrow> string" where
  "clean col = replace ''.'' ''_'' (replace ''-'' ''_'' (replace '' '' ''_'' col))"

definition source_node :: "string list \<Rightarrow> node" where
  "source_node csv_columns =
     \<lparr>node_kind = SourceStep, node_table = [], node_input = [], node_name = ''StagingSource'',
      node_text =
        ''source(output(\<newline>''
        @ join '',\<newline>'' (map (\<lambda>col. ''      '' @ clean col @ '' as string'') csv_columns)
        @ ''\<newline> ),\<newline> allowSchemaDrift: true,\<newline> validateSchema: false,\<newline> ignoreNoFilesFound: false) ~> StagingSource''\<rparr>"

definition select_node :: "string \<Rightarrow> string list \<Rightarrow> node" where
  "select_node table_name cols =
     \<lparr>node_kind = SelectStep, node_table = table_name, node_input = ''StagingSource'',
      node_name = ''Select'' @ table_name,
      node_text =
        ''\<newline>StagingSource select(mapColumn(\<newline>''
        @ join '',\<newline>'' (map (\<lambda>col. ''      '' @ clean col) cols)
        @ ''\<newline> ),\<newline> skipDuplicateMapInputs: true,\<newline> skipDuplicateMapOutputs: true) ~> Select''
        @ table_name\<rparr>"

text \<open>The aggregate list: every column but the primary key, as a \<^verbatim>\<open>first\<close> reduction.\<close>

definition agg_item :: "string \<Rightarrow> string" where
  "agg_item col = ''     '' @ clean col @ '' = first('' @ clean col @ '')''"

definition agg_cols :: "string \<Rightarrow> string list \<Rightarrow> string list" where
  "agg_cols pk cols = map agg_item (filter (\<lambda>col. \<not> (pk \<noteq> [] \<and> col = pk)) cols)"

definition aggregate_node :: "string \<Rightarrow> string \<Rightarrow> string list \<Rightarrow> node" where
  "aggregate_node table_name pk cols =
     \<lparr>node_kind = AggregateStep, node_table = table_name, node_input = ''Select'' @ table_name,
      node_name = ''Aggregate'' @ table_name,
      node_text =
        ''\<newline>Select'' @ table_name @ '' aggregate(groupBy('' @ clean pk @ ''),\<newline>''
        @ join '',\<newline>'' (agg_cols pk cols) @ '') ~> Aggregate'' @ table_name\<rparr>"

definition cast_node :: "string \<Rightarrow> string \<Rightarrow> string list \<Rightarrow> node" where
  "cast_node upstream table_name cast_cols =
     \<lparr>node_kind = CastStep, node_table = table_name, node_input = upstream @ table_name,
      node_name = ''Cast'' @ table_name,
      node_text =
        ''\<newline>'' @ upstream @ table_name @ '' cast(output(\<newline>''
        @ join '',\<newline>'' cast_cols @ ''\<newline>),\<newline> errors: true) ~> Cast'' @ table_name\<rparr>"

definition derive_node :: "string \<Rightarrow> string list \<Rightarrow> node" where
  "derive_node table_name derive_cols =
     \<lparr>node_kind = DeriveStep, node_table = table_name, node_input = ''Aggregate'' @ table_name,
      node_name = ''Derive'' @ table_name,
      node_text =
        ''\<newline>Aggregate'' @ table_name @ '' derive(\<newline>''
        @ join '',\<newline>'' derive_cols @ ''\<newline>) ~> Derive'' @ table_name\<rparr>"

definition sink_node :: "string \<Rightarrow> string \<Rightarrow> node" where
  "sink_node final_transform table_name =
     \<lparr>node_kind = SinkStep, node_table = table_name, node_input = final_transform,
      node_name = ''Load'' @ table_name,
      node_text =
        ''\<newline>'' @ final_transform
        @ '' sink(allowSchemaDrift: true,\<newline> validateSchema: false,\<newline> deletable:false,\<newline> insertable:true,\<newline> updateable:false,\<newline> upsertable:false,\<newline> format: ''
        @ sq @ ''table'' @ sq
        @ '',\<newline> skipDuplicateMapInputs: true,\<newline> skipDuplicateMapOutputs: true,\<newline> errorHandlingOption: ''
        @ sq @ ''stopOnFirstError'' @ sq @ '') ~> Load'' @ table_name\<rparr>"

text \<open>The recommendation of Agent 2 for a column, upper-cased; empty when there is none.\<close>

definition sql_type_of :: "(string \<times> string) list \<Rightarrow> string \<Rightarrow> string option" where
  "sql_type_of column_types col = map_option upper (map_of column_types (clean col))"

definition needs_cast :: "(string \<times> string) list \<Rightarrow> string \<Rightarrow> bool" where
  "needs_cast column_types col =
     (case sql_type_of column_types col of
        None \<Rightarrow> False
      | Some t \<Rightarrow> t \<noteq> [] \<and> t \<notin> set [''NVARCHAR'', ''VARCHAR'', ''STRING''] \<and> \<not> contains ''TEXT'' t)"

text \<open>The cast line Agent 2's type gives a column, if any.\<close>

definition cast_by_type :: "(string \<times> string) list \<Rightarrow> string \<Rightarrow> string list" where
  "cast_by_type column_types col =
     (case sql_type_of column_types col of
        None \<Rightarrow> []
      | Some t \<Rightarrow>
          if contains ''INT'' t \<or> t \<in> set [''BIGINT'', ''SMALLINT'', ''TINYINT'']
            then [''      '' @ clean col @ '' as integer'']
          else if contains ''DECIMAL'' t \<or> contains ''NUMERIC'' t \<or> contains ''MONEY'' t
            then [''      '' @ clean col @ '' as decimal(18,2)'']
          else if contains ''DATE'' t then [''      '' @ clean col @ '' as date'']
          else if contains ''TIME'' t \<or> contains ''DATETIME'' t
            then [''      '' @ clean col @ '' as timestamp'']
          else [])"

definition is_healthcare_dim :: "string \<Rightarrow> bool" where
  "is_healthcare_dim context_keyword =
     (contains ''healthcare'' (lower context_keyword) \<or> contains ''hospital'' (lower context_keyword)
      \<or> contains ''patient'' (lower context_keyword) \<or> contains ''doctor'' (lower context_keyword))"

definition is_experience :: "string \<Rightarrow> bool" where
  "is_experience col = (contains ''year'' (lower col) \<and> contains ''experience'' (lower col))"

definition dim_cast_needed :: "(string \<times> string) list \<Rightarrow> string \<Rightarrow> string \<Rightarrow> string list \<Rightarrow> bool" where
  "dim_cast_needed column_types context_keyword dim_name cols =
     (list_ex (needs_cast column_types) cols
      \<or> (is_healthcare_dim context_keyword \<and>
          (if contains ''patient'' (lower dim_name)
             then list_ex (\<lambda>col. contains ''age'' (lower col)) cols
           else contains ''doctor'' (lower dim_name) \<and> list_ex is_experience cols)))"

definition dim_derive_needed :: "string \<Rightarrow> string \<Rightarrow> string list \<Rightarrow> bool" where
  "dim_derive_needed context_keyword dim_name cols =
     (is_healthcare_dim context_keyword
      \<and> \<not> contains ''patient'' (lower dim_name) \<and> \<not> contains ''doctor'' (lower dim_name)
      \<and> contains ''date'' (lower dim_name)
      \<and> list_ex (\<lambda>col. contains ''date'' (lower col)) cols)"

definition dim_cast_col ::
  "(string \<times> string) list \<Rightarrow> string \<Rightarrow> string \<Rightarrow> string \<Rightarrow> string list" where
  "dim_cast_col column_types context_keyword dim_name col =
     (if is_healthcare_dim context_keyword
         \<and> (contains ''patient'' (lower dim_name) \<and> contains ''age'' (lower col)
            \<or> \<not> (contains ''patient'' (lower dim_name) \<and> contains ''age'' (lower col))
              \<and> contains ''doctor'' (lower dim_name) \<and> is_experience col)
      then [''      '' @ clean col @ '' as integer'']
      else cast_by_type column_types col)"

definition derive_cols_of :: "string list \<Rightarrow> string list" where
  "derive_cols_of cols =
     map (\<lambda>col. ''      '' @ clean col @ '' = toDate('' @ clean col @ '')'')
       (filter (\<lambda>col. contains ''date'' (lower col) \<or> contains ''time'' (lower col)) cols)"

text \<open>The name guard and the column guard of the loop over the dimensions.\<close>

definition skipped_name :: "string \<Rightarrow> bool" where
  "skipped_name dim_name =
     (contains ''unknown'' (lower dim_name) \<or> contains ''unk'' (lower dim_name))"

definition processed :: "string \<times> dim_info \<Rightarrow> bool" where
  "processed d = (\<not> skipped_name (fst d) \<and> columns (snd d) \<noteq> [])"

text \<open>The primary key in force: the given one, or the one inferred from the columns.\<close>

definition effective_pk :: "dim_info \<Rightarrow> string" where
  "effective_pk info =
     (if primary_key info \<noteq> [] then primary_key info
      else (case filter is_id_column (columns info) of
              p # _ \<Rightarrow> p
            | [] \<Rightarrow> (case columns info of c # _ \<Rightarrow> c | [] \<Rightarrow> [])))"

text \<open>What one round of the loop over \<^verbatim>\<open>dimensions.items()\<close> appends.\<close>

definition dimension_nodes ::
  "(string \<times> string) list \<Rightarrow> string \<Rightarrow> string \<times> dim_info \<Rightarrow> node list" where
  "dimension_nodes column_types context_keyword d =
     (if \<not> processed d then []
      else
        (let table_name = fst d;
             cols = columns (snd d);
             pk = effective_pk (snd d);
             cast_needed = dim_cast_needed column_types context_keyword table_name cols;
             derive_needed = dim_derive_needed context_keyword table_name cols;
             cast_cols = (if cast_needed
                          then concat (map (dim_cast_col column_types context_keyword table_name) cols)
                          else []);
             derive_cols = (if derive_needed \<and> \<not> cast_needed then derive_cols_of cols else []);
             final_transform =
               (if derive_cols \<noteq> [] then ''Derive'' @ table_name
                else if cast_cols \<noteq> [] then ''Cast'' @ table_name
                else ''Aggregate'' @ table_name)
         in [select_node table_name cols, aggregate_node table_name pk cols]
            @ (if cast_cols \<noteq> [] then [cast_node ''Aggregate'' table_name cast_cols] else [])
            @ (if derive_cols \<noteq> [] then [derive_node table_name derive_cols] else [])
            @ [sink_node final_transform table_name]))"

definition is_healthcare_fact :: "string \<Rightarrow> bool" where
  "is_healthcare_fact context_keyword =
     (contains ''healthcare'' (lower context_keyword) \<or> contains ''hospital'' (lower context_keyword)
      \<or> contains ''patient'' (lower context_keyword) \<or> contains ''visit'' (lower context_keyword))"

definition fact_cast_needed :: "(string \<times> string) list \<Rightarrow> string \<Rightarrow> string list \<Rightarrow> bool" where
  "fact_cast_needed column_types context_keyword cols =
     (list_ex (needs_cast column_types) cols
      \<or> (is_healthcare_fact context_keyword
          \<and> list_ex (\<lambda>ind. contains ind (join '' '' (map lower cols)))
               [''amount'', ''cost'', ''quantity'', ''days'', ''minutes'', ''timestamp'']))"

definition fact_cast_col :: "(string \<times> string) list \<Rightarrow> string \<Rightarrow> string \<Rightarrow> string list" where
  "fact_cast_col column_types context_keyword col =
     (if is_healthcare_fact context_keyword
         \<and> list_ex (\<lambda>ind. contains ind (lower col)) [''amount'', ''cost'', ''price'']
        then [''      '' @ clean col @ '' as decimal(18,2)'']
      else if is_healthcare_fact context_keyword
         \<and> list_ex (\<lambda>ind. contains ind (lower col)) [''quantity'', ''qty'']
        then [''      '' @ clean col @ '' as integer'']
      else if is_healthcare_fact context_keyword
         \<and> list_ex (\<lambda>ind. contains ind (lower col)) [''days'', ''minutes'', ''hours'', ''duration'']
        then [''      '' @ clean col @ '' as integer'']
      else if is_healthcare_fact context_keyword
         \<and> (contains ''timestamp'' (lower col) \<or> contains ''record_created'' (lower col))
        then [''      '' @ clean col @ '' as timestamp'']
      else cast_by_type column_types col)"

text \<open>The part for the fact table, when there are fact columns and a fact table.\<close>

definition fact_nodes ::
  "(string \<times> string) list \<Rightarrow> string \<Rightarrow> string list \<Rightarrow> (string \<times> string) list \<Rightarrow> node list" where
  "fact_nodes column_types context_keyword fact_cols fact_tables =
     (case fact_tables of
        [] \<Rightarrow> []
      | ft # _ \<Rightarrow>
          (if fact_cols = [] then []
           else
             (let table_name = fst ft;
                  cast_cols = (if fact_cast_needed column_types context_keyword fact_cols
                               then concat (map (fact_cast_col column_types context_keyword) fact_cols)
                               else []);
                  final_transform =
                    (if cast_cols \<noteq> [] then ''Cast'' @ table_name else ''Select'' @ table_name)
              in [select_node table_name fact_cols]
                 @ (if cast_cols \<noteq> [] then [cast_node ''Select'' table_name cast_cols] else [])
                 @ [sink_node final_transform table_name])))"

definition transform_nodes ::
  "string list \<Rightarrow> string list \<Rightarrow> (string \<times> dim_info) list \<Rightarrow> (string \<times> string) list
     \<Rightarrow> (string \<times> string) list \<Rightarrow> string \<Rightarrow> node list" where
  "transform_nodes csv_columns fact_cols dims column_types fact_tables context_keyword =
     (if csv_columns \<noteq> [] then [source_node csv_columns] else [])
     @ concat (map (dimension_nodes column_types context_keyword) dims)
     @ fact_nodes column_types context_keyword fact_cols fact_tables"

definition generate_transform_dataflow_script ::
  "string list \<Rightarrow> string list \<Rightarrow> (string \<times> dim_info) list \<Rightarrow> (string \<times> string) list
     \<Rightarrow> (string \<times> string) list \<Rightarrow> string \<Rightarrow> string" where
  "generate_transform_dataflow_script csv_columns fact_cols dims column_types fact_tables
       context_keyword =
     join ''\<newline>''
       (map node_text
          (transform_nodes csv_columns fact_cols dims column_types fact_tables context_keyword))"

section \<open>Reading the transformations off a script\<close>

text \<open>\<^verbatim>\<open>~\s*>\s*(\w+)\<close> at a position: the name, and the text after it.\<close>

definition match_arrow :: "string \<Rightarrow> (string \<times> string) option" where
  "match_arrow s =
     (case s of
        [] \<Rightarrow> None
      | c # r \<Rightarrow>
          (if c \<noteq> CHR ''~'' then None
           else (case skip_spaces r of
                   [] \<Rightarrow> None
                 | c2 # r2 \<Rightarrow>
                     (if c2 \<noteq> CHR ''>'' then None
                      else if takeWhile is_word (skip_spaces r2) = [] then None
                      else Some (takeWhile is_word (skip_spaces r2),
                                 dropWhile is_word (skip_spaces r2))))))"

definition exclude_patterns :: "string list" where
  "exclude_patterns = [''SourceCSV'', ''StagingSink'', ''StagingSource'']"

definition keep_transformation :: "string list \<Rightarrow> string \<Rightarrow> string list" where
  "keep_transformation transformations m =
     (if \<not> prefix ''Load'' m \<and> m \<notin> set exclude_patterns
      then (if m \<notin> set transformations then transformations @ [m] else transformations)
      else transformations)"

definition extract_transformations_from_script :: "string \<Rightarrow> string list" where
  "extract_transformations_from_script transform_script =
     foldl keep_transformation [] (findall match_arrow transform_script)"

text \<open>
  The listing that \<^verbatim>\<open>_generate_transform_dataflow_method_code\<close> writes into the generated
  \<^verbatim>\<open>create_transform_dataflow\<close> method: the names after \<^verbatim>\<open>~>\<close>, each once, without
  \<^verbatim>\<open>StagingSource\<close>. Its pattern is \<^verbatim>\<open>~\>\s*([A-Za-z_][A-Za-z0-9_]*)\<close>.
\<close>

definition match_arrow_ident :: "string \<Rightarrow> (string \<times> string) option" where
  "match_arrow_ident s =
     (case s of
        c # c2 # r \<Rightarrow>
          (if c \<noteq> CHR ''~'' \<or> c2 \<noteq> CHR ''>'' then None
           else (case skip_spaces r of
                   [] \<Rightarrow> None
                 | h # t \<Rightarrow>
                     if is_alpha h \<or> h = CHR ''_''
                     then Some (h # takeWhile (\<lambda>x. is_alpha x \<or> is_digit x \<or> x = CHR ''_'') t,
                                dropWhile (\<lambda>x. is_alpha x \<or> is_digit x \<or> x = CHR ''_'') t)
                     else None))
      | _ \<Rightarrow> None)"

definition listed_transformations :: "string \<Rightarrow> string list" where
  "listed_transformations transform_script =
     foldl (\<lambda>unique trans. if trans \<notin> set unique \<and> trans \<noteq> ''StagingSource''
                            then unique @ [trans] else unique)
       [] (findall match_arrow_ident transform_script)"

section \<open>Predicates and sample inputs used by the theorems\<close>

definition keyword_names :: "string list" where
  "keyword_names = map fst dimension_keywords"

text \<open>
  A dimension the keyword table produced: its name is a table name, and its primary key is
  either a text column among its columns or an identifier column that is not a text column.
\<close>

definition keyword_dim_ok :: "string list \<Rightarrow> string list \<Rightarrow> string \<times> dim_info \<Rightarrow> bool" where
  "keyword_dim_ok text_columns id_columns e =
     (fst e \<in> set keyword_names \<and>
      (primary_key (snd e) \<in> set (columns (snd e)) \<and> primary_key (snd e) \<in> set text_columns
       \<or> primary_key (snd e) \<in> set id_columns \<and> primary_key (snd e) \<notin> set text_columns))"

text \<open>A dimension synthesized from an identifier column.\<close>

definition synth_dim_ok :: "string list \<Rightarrow> string \<times> dim_info \<Rightarrow> bool" where
  "synth_dim_ok id_columns e =
     (primary_key (snd e) \<in> set id_columns \<and> fst e = synth_dim_name (primary_key (snd e))
      \<and> primary_key (snd e) \<in> set (columns (snd e)))"

text \<open>The dimensions after the two loops of \<^verbatim>\<open>_create_fallback_analysis\<close>.\<close>

definition split_dims :: "frame \<Rightarrow> (string \<times> dim_info) list" where
  "split_dims df =
     (let ic = filter is_id_column (df_columns df);
          tc = select_dtypes Object df;
          dims1 = foldl (keyword_step tc ic) [] dimension_keywords
      in if dims1 = [] \<and> ic \<noteq> [] then foldl (id_step tc) dims1 (take 5 ic) else dims1)"

text \<open>Sample columns: text, 64-bit integers with a least and a largest value, floats.\<close>

definition text_column :: "string \<Rightarrow> column" where
  "text_column n =
     \<lparr>col_name = n, col_kind = Object, col_dtype = ''object'', null_count = 0, notna_any = True,
      max_val = None, min_val = None, str_len_max = Some 12\<rparr>"

definition int_column :: "string \<Rightarrow> int \<Rightarrow> int \<Rightarrow> column" where
  "int_column n lo hi =
     \<lparr>col_name = n, col_kind = Number, col_dtype = ''int64'', null_count = 0, notna_any = True,
      max_val = Some hi, min_val = Some lo, str_len_max = Some 11\<rparr>"

definition float_column :: "string \<Rightarrow> column" where
  "float_column n =
     \<lparr>col_name = n, col_kind = Number, col_dtype = ''float64'', null_count = 2, notna_any = True,
      max_val = None, min_val = None, str_len_max = Some 8\<rparr>"

definition visits_frame :: frame where
  "visits_frame =
     [int_column ''Patient_ID'' 1 7, text_column ''Patient_Name'', float_column ''Amount'']"

definition coded_visits_frame :: frame where
  "coded_visits_frame =
     [text_column ''Patient_ID'', text_column ''Patient_Name'', float_column ''Amount'']"

definition orders_frame :: frame where
  "orders_frame = [int_column ''Order_ID'' 1 7, text_column ''Order_Label'']"

definition int_min_frame :: frame where
  "int_min_frame = [int_column ''reading'' (- 2147483648) (- 2147483648)]"

text \<open>
  An empty derive construct, in the words of the specification: \<^verbatim>\<open>derive\<close> in any case,
  a pair of parentheses with nothing but white space in it, and the arrow \<^verbatim>\<open>~>\<close> that
  chains it into the next node, white space allowed between the three.
\<close>

definition empty_derive_construct :: "string \<Rightarrow> bool" where
  "empty_derive_construct generated =
     (\<exists>pre d w1 w2 w3 post.
        generated = pre @ d @ w1 @ ''('' @ w2 @ '')'' @ w3 @ ''~>'' @ post
        \<and> lower d = ''derive''
        \<and> list_all is_space w1 \<and> list_all is_space w2 \<and> list_all is_space w3)"

text \<open>Code that fails four of the pre-checks.\<close>

definition broken_code :: string where
  "broken_code = ''Agg derive( ) ~> DeriveDimA Transformation(name='' @ sq @ ''LoadDimA'' @ sq @ '')''"














definition patient_dim :: "string \<times> dim_info" where
  "patient_dim =
     (''DimPatient'', \<lparr>columns = [''Patient_ID'', ''Name''], primary_key = ''Patient_ID''\<rparr>)"











section \<open>Lemmas on folds and dictionaries\<close>

lemma foldl_invariant:
  assumes "P a" and "\<And>acc x. P acc \<Longrightarrow> x \<in> set xs \<Longrightarrow> P (f acc x)"
  shows "P (foldl f a xs)"
  using assms by (induction xs rule: rev_induct) auto

lemma dict_set_elem: "p \<in> set (dict_set k v d) \<Longrightarrow> p = (k, v) \<or> p \<in> set d"
  by (induction d) (auto split: if_splits)

lemma dict_set_has: "(k, v) \<in> set (dict_set k v d)"
  by (induction d) auto

lemma dict_set_keys: "fst ` set (dict_set k v d) = insert k (fst ` set d)"
  by (induction d) auto

lemma distinct_dict_set: "distinct (map fst d) \<Longrightarrow> distinct (map fst (dict_set k v d))"
proof (induction d)
  case Nil
  then show ?case by simp
next
  case (Cons p ps)
  show ?case
  proof (cases "fst p = k")
    case True
    with Cons.prems show ?thesis by simp
  next
    case False
    have "fst p \<notin> fst ` set (dict_set k v ps)"
      using Cons.prems False by (simp add: dict_set_keys)
    with Cons False show ?thesis by simp
  qed
qed

section \<open>The schema-split fallback: dimensions\<close>

lemma keyword_names_no_unknown: "n \<in> set keyword_names \<Longrightarrow> \<not> contains ''unknown'' (lower n)"
  unfolding keyword_names_def dimension_keywords_def
  by (auto simp: lower_def lower_char_def is_upper_def)

lemma select_dtypes_subset: "set (select_dtypes k df) \<subseteq> set (df_columns df)"
  by (auto simp: select_dtypes_def df_columns_def)

lemma keyword_step_ok:
  assumes "distinct (map fst dims)" and "\<forall>e\<in>set dims. keyword_dim_ok tc ic e"
    and "entry \<in> set dimension_keywords"
  shows "distinct (map fst (keyword_step tc ic dims entry))
         \<and> (\<forall>e\<in>set (keyword_step tc ic dims entry). keyword_dim_ok tc ic e)"
proof (cases "filter (matches_any (snd entry)) tc")
  case Nil
  with assms show ?thesis by (simp add: keyword_step_def)
next
  case (Cons m ms)
  define pk where "pk = (case filter (matches_any (snd entry)) ic of [] \<Rightarrow> m | p # _ \<Rightarrow> p)"
  define info where "info = \<lparr>columns = m # ms, primary_key = pk\<rparr>"
  have step: "keyword_step tc ic dims entry = dict_set (fst entry) info dims"
    by (simp add: keyword_step_def Cons pk_def info_def)
  have m_in: "m \<in> set (filter (matches_any (snd entry)) tc)"
    by (simp add: Cons)
  have name: "fst entry \<in> set keyword_names"
    using assms(3) by (auto simp: keyword_names_def)
  have new: "keyword_dim_ok tc ic (fst entry, info)"
  proof (cases "filter (matches_any (snd entry)) ic")
    case Nil
    then have "pk = m" by (simp add: pk_def)
    with m_in name show ?thesis by (auto simp: keyword_dim_ok_def info_def)
  next
    case (Cons p ps)
    then have pk: "pk = p" by (simp add: pk_def)
    have "p \<in> set (filter (matches_any (snd entry)) ic)" by (simp add: Cons)
    then have p: "p \<in> set ic" "matches_any (snd entry) p" by auto
    show ?thesis
    proof (cases "p \<in> set tc")
      case True
      with p have "p \<in> set (filter (matches_any (snd entry)) tc)" by simp
      then have "p \<in> set (m # ms)" by (simp add: \<open>filter (matches_any (snd entry)) tc = m # ms\<close>)
      with True pk name show ?thesis by (simp add: keyword_dim_ok_def info_def)
    next
      case False
      with p pk name show ?thesis by (simp add: keyword_dim_ok_def info_def)
    qed
  qed
  show ?thesis
    unfolding step using assms(1,2) new by (auto simp: distinct_dict_set dest!: dict_set_elem)
qed

lemma keyword_pass_ok:
  "distinct (map fst (foldl (keyword_step tc ic) [] dimension_keywords))
   \<and> (\<forall>e\<in>set (foldl (keyword_step tc ic) [] dimension_keywords). keyword_dim_ok tc ic e)"
proof (rule foldl_invariant
    [where P = "\<lambda>dims. distinct (map fst dims) \<and> (\<forall>e\<in>set dims. keyword_dim_ok tc ic e)"])
  show "distinct (map fst []) \<and> (\<forall>e\<in>set ([] :: (string \<times> dim_info) list). keyword_dim_ok tc ic e)"
    by simp
next
  fix acc x
  assume "distinct (map fst acc) \<and> (\<forall>e\<in>set acc. keyword_dim_ok tc ic e)"
    and "x \<in> set dimension_keywords"
  then show "distinct (map fst (keyword_step tc ic acc x))
    \<and> (\<forall>e\<in>set (keyword_step tc ic acc x). keyword_dim_ok tc ic e)"
    using keyword_step_ok [of acc tc ic x] by blast
qed

lemma id_step_ok:
  assumes "distinct (map fst dims)" and "\<forall>e\<in>set dims. synth_dim_ok ic e" and "c \<in> set ic"
  shows "distinct (map fst (id_step tc dims c)) \<and> (\<forall>e\<in>set (id_step tc dims c). synth_dim_ok ic e)"
  using assms
  by (auto simp: id_step_def Let_def distinct_dict_set synth_dim_ok_def dest!: dict_set_elem)

lemma id_pass_ok:
  assumes "set cs \<subseteq> set ic"
  shows "distinct (map fst (foldl (id_step tc) [] cs))
         \<and> (\<forall>e\<in>set (foldl (id_step tc) [] cs). synth_dim_ok ic e)"
proof (rule foldl_invariant
    [where P = "\<lambda>dims. distinct (map fst dims) \<and> (\<forall>e\<in>set dims. synth_dim_ok ic e)"])
  show "distinct (map fst []) \<and> (\<forall>e\<in>set ([] :: (string \<times> dim_info) list). synth_dim_ok ic e)"
    by simp
next
  fix acc x
  assume "distinct (map fst acc) \<and> (\<forall>e\<in>set acc. synth_dim_ok ic e)" and "x \<in> set cs"
  then show "distinct (map fst (id_step tc acc x)) \<and> (\<forall>e\<in>set (id_step tc acc x). synth_dim_ok ic e)"
    using id_step_ok [of acc ic x tc] assms by blast
qed

lemma fallback_dimensions_eq:
  "dimensions (create_fallback_analysis df csv) =
     (let ic = filter is_id_column (df_columns df);
          tc = select_dtypes Object df;
          dims1 = foldl (keyword_step tc ic) [] dimension_keywords;
          dims2 = (if dims1 = [] \<and> ic \<noteq> [] then foldl (id_step tc) dims1 (take 5 ic) else dims1)
      in case ic of
           [] \<Rightarrow> dims2
         | first_id # _ \<Rightarrow>
             if dims2 = []
             then [(synth_dim_name first_id, \<lparr>columns = first_id # take 10 tc, primary_key = first_id\<rparr>)]
             else dims2)"
  unfolding create_fallback_analysis_def Let_def
  by (cases "filter is_id_column (df_columns df)") simp_all

lemma fallback_foreign_keys_eq:
  "foreign_keys (create_fallback_analysis df csv) =
     (let ic = filter is_id_column (df_columns df);
          tc = select_dtypes Object df;
          dims1 = foldl (keyword_step tc ic) [] dimension_keywords;
          dims2 = (if dims1 = [] \<and> ic \<noteq> [] then foldl (id_step tc) dims1 (take 5 ic) else dims1)
      in case ic of
           [] \<Rightarrow> foldl (fk_step (df_columns df)) [] dims2
         | first_id # _ \<Rightarrow>
             if dims2 = []
             then [(first_id, synth_dim_name first_id)]
             else foldl (fk_step (df_columns df)) [] dims2)"
  unfolding create_fallback_analysis_def Let_def
  by (cases "filter is_id_column (df_columns df)") simp_all

lemma split_dims_ok:
  "distinct (map fst (split_dims df))
   \<and> (\<forall>e\<in>set (split_dims df).
         keyword_dim_ok (select_dtypes Object df) (filter is_id_column (df_columns df)) e
         \<or> synth_dim_ok (filter is_id_column (df_columns df)) e)"
proof -
  define ic where "ic = filter is_id_column (df_columns df)"
  define tc where "tc = select_dtypes Object df"
  define dims1 where "dims1 = foldl (keyword_step tc ic) [] dimension_keywords"
  have eq: "split_dims df = (if dims1 = [] \<and> ic \<noteq> [] then foldl (id_step tc) [] (take 5 ic) else dims1)"
    by (simp add: split_dims_def Let_def ic_def tc_def dims1_def)
  show ?thesis
  proof (cases "dims1 = [] \<and> ic \<noteq> []")
    case True
    have "set (take 5 ic) \<subseteq> set ic" by (rule set_take_subset)
    then show ?thesis
      using True id_pass_ok [of "take 5 ic" ic tc] unfolding eq ic_def tc_def by auto
  next
    case False
    then show ?thesis
      using keyword_pass_ok [of tc ic] unfolding eq dims1_def ic_def tc_def by auto
  qed
qed

text \<open>
  What \<^verbatim>\<open>_create_fallback_analysis\<close> returns is either what the two loops left, with
  the foreign keys read off it, or the single dimension of the last resort.
\<close>

lemma fallback_result_cases:
  "(dimensions (create_fallback_analysis df csv) = split_dims df
      \<and> foreign_keys (create_fallback_analysis df csv) = foldl (fk_step (df_columns df)) [] (split_dims df))
   \<or> (\<exists>first_id. first_id \<in> set (filter is_id_column (df_columns df))
        \<and> dimensions (create_fallback_analysis df csv) =
             [(synth_dim_name first_id,
               \<lparr>columns = first_id # take 10 (select_dtypes Object df), primary_key = first_id\<rparr>)]
        \<and> foreign_keys (create_fallback_analysis df csv) = [(first_id, synth_dim_name first_id)])"
proof (cases "filter is_id_column (df_columns df)")
  case Nil
  then show ?thesis
    unfolding fallback_dimensions_eq fallback_foreign_keys_eq split_dims_def Let_def by simp
next
  case (Cons first_id rest)
  show ?thesis
  proof (cases "split_dims df = []")
    case True
    then have "dimensions (create_fallback_analysis df csv) =
             [(synth_dim_name first_id,
               \<lparr>columns = first_id # take 10 (select_dtypes Object df), primary_key = first_id\<rparr>)]"
      and "foreign_keys (create_fallback_analysis df csv) = [(first_id, synth_dim_name first_id)]"
      unfolding fallback_dimensions_eq fallback_foreign_keys_eq split_dims_def Let_def Cons by simp_all
    then show ?thesis using Cons by simp
  next
    case False
    then have "dimensions (create_fallback_analysis df csv) = split_dims df"
      and "foreign_keys (create_fallback_analysis df csv) = foldl (fk_step (df_columns df)) [] (split_dims df)"
      unfolding fallback_dimensions_eq fallback_foreign_keys_eq split_dims_def Let_def Cons by simp_all
    then show ?thesis by simp
  qed
qed

lemma fallback_dimensions_ok:
  "distinct (map fst (dimensions (create_fallback_analysis df csv)))
   \<and> (\<forall>e\<in>set (dimensions (create_fallback_analysis df csv)).
         keyword_dim_ok (select_dtypes Object df) (filter is_id_column (df_columns df)) e
         \<or> synth_dim_ok (filter is_id_column (df_columns df)) e)"
  using fallback_result_cases [of df csv]
proof (elim disjE exE conjE)
  assume "dimensions (create_fallback_analysis df csv) = split_dims df"
  then show ?thesis using split_dims_ok [of df] by simp
next
  fix first_id
  assume "first_id \<in> set (filter is_id_column (df_columns df))"
    and "dimensions (create_fallback_analysis df csv) =
             [(synth_dim_name first_id,
               \<lparr>columns = first_id # take 10 (select_dtypes Object df), primary_key = first_id\<rparr>)]"
  then show ?thesis by (simp add: synth_dim_ok_def)
qed

text \<open>
  What holds of the dimensions of the fallback split for every data frame: their names
  are pairwise distinct and every primary key is a column of the frame. A primary key is
  among the columns of its dimension, or the dimension comes from the keyword table and
  the key is an identifier column that is not a text column. Every name is one of the
  seven names of the keyword table or \<^verbatim>\<open>Dim\<close> followed by the title-cased stem of the
  identifier column that is its primary key.
\<close>

lemma fallback_split_invariants:
  "distinct (map fst (dimensions (create_fallback_analysis df csv)))
   \<and> (\<forall>e\<in>set (dimensions (create_fallback_analysis df csv)).
         primary_key (snd e) \<in> set (df_columns df)
       \<and> (primary_key (snd e) \<in> set (columns (snd e))
          \<or> fst e \<in> set keyword_names \<and> is_id_column (primary_key (snd e))
            \<and> primary_key (snd e) \<notin> set (select_dtypes Object df))
       \<and> (fst e \<in> set keyword_names \<and> \<not> contains ''unknown'' (lower (fst e))
          \<or> is_id_column (primary_key (snd e)) \<and> fst e = synth_dim_name (primary_key (snd e))))"
proof -
  have sub: "set (select_dtypes Object df) \<subseteq> set (df_columns df)"
    by (rule select_dtypes_subset)
  have "\<And>e. keyword_dim_ok (select_dtypes Object df) (filter is_id_column (df_columns df)) e
            \<or> synth_dim_ok (filter is_id_column (df_columns df)) e \<Longrightarrow>
        primary_key (snd e) \<in> set (df_columns df)
       \<and> (primary_key (snd e) \<in> set (columns (snd e))
          \<or> fst e \<in> set keyword_names \<and> is_id_column (primary_key (snd e))
            \<and> primary_key (snd e) \<notin> set (select_dtypes Object df))
       \<and> (fst e \<in> set keyword_names \<and> \<not> contains ''unknown'' (lower (fst e))
          \<or> is_id_column (primary_key (snd e)) \<and> fst e = synth_dim_name (primary_key (snd e)))"
    using sub keyword_names_no_unknown
    by (auto simp: keyword_dim_ok_def synth_dim_ok_def)
  then show ?thesis
    using fallback_dimensions_ok [of df csv] by blast
qed

text \<open>
  Claim C1 at a frame with an integer \<^verbatim>\<open>Patient_ID\<close> and a text \<^verbatim>\<open>Patient_Name\<close>. The loop
  over the keyword table makes \<^verbatim>\<open>DimPatient\<close> of the text column alone and takes the integer
  identifier as its primary key: the key is a column of the frame and is not among the
  columns of the dimension. At a frame with an integer \<^verbatim>\<open>Order_ID\<close> and a text
  \<^verbatim>\<open>Order_Label\<close>, which no keyword matches, the loop over the identifier columns puts the
  identifier at the head of the columns of \<^verbatim>\<open>DimOrder\<close>.
\<close>

theorem fallback_split_key_outside_columns:
  "dimensions (create_fallback_analysis visits_frame ''visits.csv'')
     = [(''DimPatient'', \<lparr>columns = [''Patient_Name''], primary_key = ''Patient_ID''\<rparr>)]
   \<and> ''Patient_ID'' \<notin> set [''Patient_Name'']
   \<and> ''Patient_ID'' \<in> set (df_columns visits_frame)
   \<and> dimensions (create_fallback_analysis orders_frame ''orders.csv'')
     = [(''DimOrder'', \<lparr>columns = [''Order_ID'', ''Order_Label''], primary_key = ''Order_ID''\<rparr>)]"
  by code_simp

section \<open>The schema-split fallback: foreign keys\<close>

lemma fk_step_elem:
  assumes "p \<in> set (fk_step allc fks e)"
  shows "p \<in> set fks \<or> (p = (primary_key (snd e), fst e) \<and> primary_key (snd e) \<in> set allc)"
  using assms by (auto simp: fk_step_def split: if_splits dest!: dict_set_elem)

lemma fk_pass_sound:
  "\<forall>p\<in>set (foldl (fk_step allc) [] dims).
      fst p \<in> set allc \<and> (\<exists>d. (snd p, d) \<in> set dims \<and> primary_key d = fst p)"
proof (rule foldl_invariant
    [where P = "\<lambda>fks. \<forall>p\<in>set fks. fst p \<in> set allc \<and> (\<exists>d. (snd p, d) \<in> set dims \<and> primary_key d = fst p)"])
  show "\<forall>p\<in>set ([] :: (string \<times> string) list).
          fst p \<in> set allc \<and> (\<exists>d. (snd p, d) \<in> set dims \<and> primary_key d = fst p)"
    by simp
next
  fix acc :: "(string \<times> string) list" and x :: "string \<times> dim_info"
  assume inv: "\<forall>p\<in>set acc. fst p \<in> set allc \<and> (\<exists>d. (snd p, d) \<in> set dims \<and> primary_key d = fst p)"
    and x: "x \<in> set dims"
  show "\<forall>p\<in>set (fk_step allc acc x).
          fst p \<in> set allc \<and> (\<exists>d. (snd p, d) \<in> set dims \<and> primary_key d = fst p)"
  proof
    fix p assume "p \<in> set (fk_step allc acc x)"
    then consider "p \<in> set acc"
      | "p = (primary_key (snd x), fst x)" "primary_key (snd x) \<in> set allc"
      using fk_step_elem by blast
    then show "fst p \<in> set allc \<and> (\<exists>d. (snd p, d) \<in> set dims \<and> primary_key d = fst p)"
    proof cases
      case 1
      with inv show ?thesis by blast
    next
      case 2
      have "(fst x, snd x) \<in> set dims" using x by simp
      then have "\<exists>d. (fst x, d) \<in> set dims \<and> primary_key d = primary_key (snd x)"
        by (intro exI [of _ "snd x"]) simp
      with 2 show ?thesis by simp
    qed
  qed
qed

lemma fk_step_keys: "fst ` set fks \<subseteq> fst ` set (fk_step allc fks e)"
  by (auto simp: fk_step_def dict_set_keys)

lemma fk_pass_complete:
  "\<forall>e\<in>set dims. primary_key (snd e) \<in> set allc \<longrightarrow>
      primary_key (snd e) \<in> fst ` set (foldl (fk_step allc) init dims)"
proof (induction dims rule: rev_induct)
  case Nil
  then show ?case by simp
next
  case (snoc x xs)
  have new: "primary_key (snd x) \<in> set allc \<Longrightarrow>
        primary_key (snd x) \<in> fst ` set (fk_step allc (foldl (fk_step allc) init xs) x)"
    by (simp add: fk_step_def dict_set_keys)
  show ?case
    using snoc.IH new fk_step_keys [of "foldl (fk_step allc) init xs" allc x] by auto
qed

text \<open>
  Claim C8, as the code has it. In every split of the fallback each entry of
  \<^verbatim>\<open>foreign_keys\<close> maps the primary key of a dimension of the split to that dimension's
  name, and the key is a column of the data frame, which is what the code tests; every
  dimension of the split has its primary key among the keys of \<^verbatim>\<open>foreign_keys\<close>, whether or
  not the key is among the fact columns.
\<close>

theorem fallback_split_foreign_keys:
  "(\<forall>p\<in>set (foreign_keys (create_fallback_analysis df csv)).
       fst p \<in> set (df_columns df)
     \<and> (\<exists>d. (snd p, d) \<in> set (dimensions (create_fallback_analysis df csv))
            \<and> primary_key d = fst p))
   \<and> (\<forall>e\<in>set (dimensions (create_fallback_analysis df csv)).
       primary_key (snd e) \<in> fst ` set (foreign_keys (create_fallback_analysis df csv)))"
  using fallback_result_cases [of df csv]
proof (elim disjE exE conjE)
  assume d: "dimensions (create_fallback_analysis df csv) = split_dims df"
    and f: "foreign_keys (create_fallback_analysis df csv)
              = foldl (fk_step (df_columns df)) [] (split_dims df)"
  have pk_cols: "\<forall>e\<in>set (split_dims df). primary_key (snd e) \<in> set (df_columns df)"
    using split_dims_ok [of df] select_dtypes_subset [of Object df]
    by (auto simp: keyword_dim_ok_def synth_dim_ok_def)
  show ?thesis
    unfolding d f
    using fk_pass_sound [of "df_columns df" "split_dims df"]
      fk_pass_complete [of "split_dims df" "df_columns df" "[]"] pk_cols
    by blast
next
  fix first_id
  assume "first_id \<in> set (filter is_id_column (df_columns df))"
    and "dimensions (create_fallback_analysis df csv) =
             [(synth_dim_name first_id,
               \<lparr>columns = first_id # take 10 (select_dtypes Object df), primary_key = first_id\<rparr>)]"
    and "foreign_keys (create_fallback_analysis df csv) = [(first_id, synth_dim_name first_id)]"
  then show ?thesis by simp
qed

text \<open>
  Claim C8 as stated fails. With a text \<^verbatim>\<open>Patient_ID\<close>, a text \<^verbatim>\<open>Patient_Name\<close> and a
  numeric \<^verbatim>\<open>Amount\<close>, the fact columns are \<^verbatim>\<open>Amount\<close> alone, and \<^verbatim>\<open>foreign_keys\<close> still maps
  \<^verbatim>\<open>Patient_ID\<close> to \<^verbatim>\<open>DimPatient\<close>.
\<close>

theorem fallback_split_foreign_keys_counterexample:
  "fact_columns (create_fallback_analysis coded_visits_frame ''visits.csv'') = [''Amount'']
   \<and> foreign_keys (create_fallback_analysis coded_visits_frame ''visits.csv'')
       = [(''Patient_ID'', ''DimPatient'')]
   \<and> ''Patient_ID'' \<notin> set [''Amount'']"
  by code_simp

text \<open>The theorem at the frame of the integer identifier.\<close>

theorem fallback_split_foreign_keys_witness:
  "(''Patient_ID'', ''DimPatient'')
      \<in> set (foreign_keys (create_fallback_analysis visits_frame ''visits.csv''))
   \<and> ''Patient_ID'' \<in> set (df_columns visits_frame)
   \<and> (\<exists>d. (''DimPatient'', d) \<in> set (dimensions (create_fallback_analysis visits_frame ''visits.csv''))
          \<and> primary_key d = ''Patient_ID'')
   \<and> (''DimPatient'', \<lparr>columns = [''Patient_Name''], primary_key = ''Patient_ID''\<rparr>)
      \<in> set (dimensions (create_fallback_analysis visits_frame ''visits.csv''))
   \<and> ''Patient_ID'' \<in> fst ` set (foreign_keys (create_fallback_analysis visits_frame ''visits.csv''))"
proof -
  let ?r = "create_fallback_analysis visits_frame ''visits.csv''"
  let ?e = "(''DimPatient'', \<lparr>columns = [''Patient_Name''], primary_key = ''Patient_ID''\<rparr>)"
  have fk: "(''Patient_ID'', ''DimPatient'') \<in> set (foreign_keys ?r)"
    by code_simp
  have dim: "?e \<in> set (dimensions ?r)"
    by code_simp
  from fallback_split_foreign_keys [of visits_frame "''visits.csv''"]
  have a: "\<forall>p\<in>set (foreign_keys ?r).
       fst p \<in> set (df_columns visits_frame)
     \<and> (\<exists>d. (snd p, d) \<in> set (dimensions ?r) \<and> primary_key d = fst p)"
    and b: "\<forall>e\<in>set (dimensions ?r). primary_key (snd e) \<in> fst ` set (foreign_keys ?r)"
    by blast+
  from bspec [OF a fk] bspec [OF b dim] fk dim show ?thesis by simp
qed

section \<open>The type-inference fallback\<close>

lemma fallback_datatypes_keys:
  "fst ` set (foldl (\<lambda>acc col. dict_set col (f col) acc) init cols) = fst ` set init \<union> set cols"
  by (induction cols arbitrary: init) (auto simp: dict_set_keys)

lemma fallback_datatypes_distinct:
  "distinct (map fst init) \<Longrightarrow>
   distinct (map fst (foldl (\<lambda>acc col. dict_set col (f col) acc) init cols))"
  by (induction cols arbitrary: init) (auto simp: distinct_dict_set)

text \<open>
  The fallback is total by construction, and it decides every column once: the keys of
  the result are the labels of the frame, each once.
\<close>

lemma fallback_datatypes_total:
  "fst ` set (create_fallback_datatypes df agent1) = set (df_columns df)
   \<and> distinct (map fst (create_fallback_datatypes df agent1))"
  unfolding create_fallback_datatypes_def
  using fallback_datatypes_keys [of "column_decision df agent1" "[]" "df_columns df"]
    fallback_datatypes_distinct [of "[]" "column_decision df agent1" "df_columns df"]
  by simp

text \<open>
  The decision on a series: the dtype string decides the type, and \<^verbatim>\<open>nullable\<close> is
  \<^verbatim>\<open>null_count > 0\<close>. An \<^verbatim>\<open>int\<close> dtype gives \<^verbatim>\<open>long\<close> when the largest or the least value has
  an absolute value above 2147483647.
\<close>

lemma series_decision_types:
  "adf_type (series_decision agent1 c) =
     (if contains ''int'' (col_dtype c) then snd (int_types c)
      else if contains ''float'' (col_dtype c) then ''decimal(18,2)''
      else if contains ''datetime'' (col_dtype c) \<or> contains ''date'' (col_dtype c) then ''timestamp''
      else if contains ''bool'' (col_dtype c) then ''boolean''
      else ''string'')
   \<and> nullable (series_decision agent1 c) = (null_count c > 0)"
  by (simp add: series_decision_def Let_def)

text \<open>
  Claim C6 at the least 32-bit value. A column of dtype \<^verbatim>\<open>int64\<close> whose only value is
  -2147483648 lies within the signed 32-bit bounds, and the fallback still decides
  \<^verbatim>\<open>BIGINT\<close> and \<^verbatim>\<open>long\<close> for it: the test compares absolute values with 2147483647.
\<close>

theorem fallback_datatypes_int_min:
  "map (\<lambda>p. (fst p, sql_type (snd p), adf_type (snd p), nullable (snd p)))
     (create_fallback_datatypes int_min_frame None)
     = [(''reading'', ''BIGINT'', ''long'', False)]
   \<and> - 2147483648 \<le> (- 2147483648 :: int) \<and> (- 2147483648 :: int) \<le> 2147483647"
  by code_simp

section \<open>The validator\<close>

lemma search_iff: "search m s \<noteq> None \<longleftrightarrow> (\<exists>pre post. s = pre @ post \<and> m post \<noteq> None)"
proof (induction s)
  case Nil
  then show ?case by simp
next
  case (Cons c cs)
  show ?case
  proof
    assume "search m (c # cs) \<noteq> None"
    then consider "m (c # cs) \<noteq> None" | "search m cs \<noteq> None"
      by (auto split: option.splits)
    then show "\<exists>pre post. c # cs = pre @ post \<and> m post \<noteq> None"
    proof cases
      case 1
      then show ?thesis by (intro exI [of _ "[]"] exI [of _ "c # cs"]) simp
    next
      case 2
      with Cons.IH obtain pre post where "cs = pre @ post" "m post \<noteq> None" by blast
      then show ?thesis by (intro exI [of _ "c # pre"] exI [of _ post]) simp
    qed
  next
    assume "\<exists>pre post. c # cs = pre @ post \<and> m post \<noteq> None"
    then obtain pre post where eq: "c # cs = pre @ post" and m: "m post \<noteq> None" by blast
    show "search m (c # cs) \<noteq> None"
    proof (cases pre)
      case Nil
      with eq m show ?thesis by (auto split: option.splits)
    next
      case (Cons p ps)
      with eq have "cs = ps @ post" by simp
      with m Cons.IH have "search m cs \<noteq> None" by blast
      then show ?thesis by (auto split: option.splits)
    qed
  qed
qed

lemma match_ci_append:
  assumes "lower d = lower lit"
  shows "match_ci lit (d @ rest) = Some rest"
proof -
  have "length d = length lit"
    using assms by (metis length_map lower_def)
  then show ?thesis using assms by (simp add: match_ci_def)
qed

lemma match_ci_Some:
  assumes "match_ci lit s = Some rest"
  shows "\<exists>d. s = d @ rest \<and> lower d = lower lit"
proof -
  from assms have "rest = drop (length lit) s" and "lower (take (length lit) s) = lower lit"
    by (auto simp: match_ci_def split: if_splits)
  then show ?thesis
    by (intro exI [of _ "take (length lit) s"]) simp
qed

lemma skip_spaces_append:
  assumes "list_all is_space w" and "\<not> is_space c"
  shows "skip_spaces (w @ c # r) = c # r"
  using assms by (induction w) (auto simp: skip_spaces_def)

lemma skip_spaces_Cons:
  assumes "skip_spaces s = c # r"
  shows "\<exists>w. s = w @ c # r \<and> list_all is_space w \<and> \<not> is_space c"
proof -
  have "s = takeWhile is_space s @ dropWhile is_space s" by simp
  moreover have "list_all is_space (takeWhile is_space s)"
    by (simp add: list_all_iff) (meson set_takeWhileD)
  moreover have "\<not> is_space c"
    using assms unfolding skip_spaces_def by (metis hd_dropWhile list.distinct(1) list.sel(1))
  ultimately show ?thesis using assms unfolding skip_spaces_def by metis
qed

lemma lower_derive: "lower ''derive'' = ''derive''"
  by code_simp

lemma not_space_chars:
  "\<not> is_space CHR ''(''" "\<not> is_space CHR '')''" "\<not> is_space CHR ''~''"
  by (simp_all add: is_space_def)

lemma match_empty_derive_iff:
  "match_empty_derive s \<noteq> None \<longleftrightarrow>
     (\<exists>d w1 w2 w3 post.
        s = d @ w1 @ ''('' @ w2 @ '')'' @ w3 @ ''~>'' @ post \<and> lower d = ''derive''
        \<and> list_all is_space w1 \<and> list_all is_space w2 \<and> list_all is_space w3)"
proof
  assume "match_empty_derive s \<noteq> None"
  then obtain r1 r2 r3 where m1: "match_ci ''derive'' s = Some r1"
    and s1: "skip_spaces r1 = CHR ''('' # r2"
    and s2: "skip_spaces r2 = CHR '')'' # r3"
    and p: "prefix ''~>'' (skip_spaces r3)"
    by (auto simp: match_empty_derive_def split: option.splits list.splits if_splits)
  from p obtain post where s3: "skip_spaces r3 = CHR ''~'' # CHR ''>'' # post"
    by (auto simp: prefix_def)
  from match_ci_Some [OF m1] obtain d where d: "s = d @ r1" "lower d = ''derive''"
    by (auto simp: lower_derive)
  from skip_spaces_Cons [OF s1] obtain w1 where w1: "r1 = w1 @ CHR ''('' # r2" "list_all is_space w1"
    by blast
  from skip_spaces_Cons [OF s2] obtain w2 where w2: "r2 = w2 @ CHR '')'' # r3" "list_all is_space w2"
    by blast
  from skip_spaces_Cons [OF s3] obtain w3 where
    w3: "r3 = w3 @ CHR ''~'' # CHR ''>'' # post" "list_all is_space w3"
    by blast
  have "s = d @ w1 @ ''('' @ w2 @ '')'' @ w3 @ ''~>'' @ post"
    using d(1) w1(1) w2(1) w3(1) by simp
  with d(2) w1(2) w2(2) w3(2) show "\<exists>d w1 w2 w3 post.
        s = d @ w1 @ ''('' @ w2 @ '')'' @ w3 @ ''~>'' @ post \<and> lower d = ''derive''
        \<and> list_all is_space w1 \<and> list_all is_space w2 \<and> list_all is_space w3"
    by blast
next
  assume "\<exists>d w1 w2 w3 post.
        s = d @ w1 @ ''('' @ w2 @ '')'' @ w3 @ ''~>'' @ post \<and> lower d = ''derive''
        \<and> list_all is_space w1 \<and> list_all is_space w2 \<and> list_all is_space w3"
  then obtain d w1 w2 w3 post where
    s: "s = d @ w1 @ ''('' @ w2 @ '')'' @ w3 @ ''~>'' @ post" and d: "lower d = ''derive''"
    and w: "list_all is_space w1" "list_all is_space w2" "list_all is_space w3"
    by blast
  have m1: "match_ci ''derive'' s
              = Some (w1 @ CHR ''('' # w2 @ CHR '')'' # w3 @ CHR ''~'' # CHR ''>'' # post)"
    using match_ci_append [of d "''derive''" "w1 @ ''('' @ w2 @ '')'' @ w3 @ ''~>'' @ post"] d
    unfolding s by (simp add: lower_derive)
  show "match_empty_derive s \<noteq> None"
    by (simp add: match_empty_derive_def m1 skip_spaces_append w not_space_chars)
qed

text \<open>The search of pre-check 4 finds exactly the empty derive constructs.\<close>

lemma has_empty_derive_iff: "has_empty_derive generated \<longleftrightarrow> empty_derive_construct generated"
proof -
  have "has_empty_derive generated \<longleftrightarrow>
        (\<exists>pre post. generated = pre @ post \<and> match_empty_derive post \<noteq> None)"
    by (simp only: has_empty_derive_def search_iff)
  also have "\<dots> \<longleftrightarrow> empty_derive_construct generated"
    unfolding match_empty_derive_iff empty_derive_construct_def by blast
  finally show ?thesis .
qed

lemma in_set_dropWhile: "x \<in> set s \<Longrightarrow> \<not> P x \<Longrightarrow> x \<in> set (dropWhile P s)"
  by (induction s) auto

lemma strip_nonempty:
  assumes "x \<in> set s" and "\<not> is_space x"
  shows "strip s \<noteq> []"
proof -
  have "x \<in> set (dropWhile is_space s)" using assms by (rule in_set_dropWhile)
  then have "x \<in> set (rev (dropWhile is_space s))" by simp
  then have "x \<in> set (dropWhile is_space (rev (dropWhile is_space s)))"
    using assms(2) by (rule in_set_dropWhile)
  then show ?thesis unfolding strip_def by (metis rev_is_Nil_conv empty_iff empty_set)
qed

lemma empty_derive_not_blank:
  assumes "empty_derive_construct generated"
  shows "generated \<noteq> [] \<and> strip generated \<noteq> []"
proof -
  from assms have "CHR ''('' \<in> set generated"
    by (auto simp: empty_derive_construct_def)
  then show ?thesis using strip_nonempty [OF _ not_space_chars(1)] by auto
qed

lemma issue_empty_derive_other:
  "issue_empty_derive \<notin> set (signature_issues sc)"
  "issue_sql_type t \<noteq> issue_empty_derive"
  "issue_syntax e \<noteq> issue_empty_derive"
  "issue_load_name \<noteq> issue_empty_derive"
  "issue_empty_derive \<noteq> issue_sql_type t"
  "issue_empty_derive \<noteq> issue_syntax e"
  by (simp_all add: signature_issues_def issue_missing_param_def issue_no_deploy_def
      issue_sql_type_def issue_syntax_def issue_load_name_def issue_empty_derive_def)

lemma count_list_0: "x \<notin> set xs \<Longrightarrow> count_list xs x = 0"
  by (induction xs) auto

lemma count_list_app: "count_list (xs @ ys) x = count_list xs x + count_list ys x"
  by (induction xs) auto

lemma count_empty_derive_issue:
  assumes "set syntax_issue \<subseteq> range issue_syntax"
  shows "count_list (pre_check_issues generated syntax_issue) issue_empty_derive
           = (if has_empty_derive generated then 1 else 0)"
proof -
  have a: "count_list (signature_issues (check_signature generated)) issue_empty_derive = 0"
    by (rule count_list_0) (rule issue_empty_derive_other)
  have b: "count_list (map issue_sql_type (sql_types_in_cast generated)) issue_empty_derive = 0"
    by (rule count_list_0) (auto simp: issue_empty_derive_other)
  have c: "count_list syntax_issue issue_empty_derive = 0"
    using assms by (intro count_list_0) (auto simp: issue_empty_derive_other)
  show ?thesis
    using issue_empty_derive_other(4)
    by (simp add: pre_check_issues_def count_list_app a b c)
qed

text \<open>
  Claim C10. Without a client the validator returns the passing verdict with no issue,
  whatever the code is and whatever compiling it would do: no check runs.
\<close>

theorem validator_skipped_without_client:
  "validate_generated_code None py_compile generated
     = verdict True [] ''Validation skipped - OpenAI client not available'' (py_dict [])"
  by (simp add: validate_generated_code_def)

text \<open>
  The theorem at code that has no deploy method, does not compile, holds an empty derive
  and lists a Load name as a transformation: with a client it is rejected with these
  issues, without one it passes.
\<close>

theorem validator_skipped_without_client_witness:
  "validate_generated_code None (\<lambda>c. SyntaxError ''invalid syntax'') broken_code
     = verdict True [] ''Validation skipped - OpenAI client not available'' (py_dict [])
   \<and> has_empty_derive broken_code \<and> has_load_transformation broken_code
   \<and> signature_issues (check_signature broken_code) = [issue_no_deploy]"
proof -
  have "has_empty_derive broken_code" by code_simp
  moreover have "has_load_transformation broken_code" by code_simp
  moreover have "signature_issues (check_signature broken_code) = [issue_no_deploy]" by code_simp
  ultimately show ?thesis
    using validator_skipped_without_client [of "\<lambda>c. SyntaxError ''invalid syntax''" broken_code]
    by simp
qed

text \<open>
  Claim C3, as the code has it. When the client is there and compiling the code raises
  nothing but a syntax error, code that contains an empty derive construct gets a failing
  verdict whose issues hold the empty-derive issue exactly once.
\<close>

theorem validator_flags_empty_derive:
  assumes "empty_derive_construct generated"
    and "\<forall>e. py_compile generated \<noteq> CompileRaises e"
  shows "\<exists>issues feedback details.
           validate_generated_code (Some ask) py_compile generated
             = verdict False issues feedback details
           \<and> count_list issues issue_empty_derive = 1"
proof -
  define syntax_issue where
    "syntax_issue = (case py_compile generated of SyntaxError e \<Rightarrow> [issue_syntax e] | _ \<Rightarrow> [])"
  define issues where "issues = pre_check_issues generated syntax_issue"
  have found: "has_empty_derive generated"
    using assms(1) by (simp add: has_empty_derive_iff)
  have "set syntax_issue \<subseteq> range issue_syntax"
    by (auto simp: syntax_issue_def split: compile_result.splits)
  then have cnt: "count_list issues issue_empty_derive = 1"
    using found by (simp add: issues_def count_empty_derive_issue)
  then have ne: "issues \<noteq> []" by auto
  have "\<exists>feedback details.
          validate_generated_code (Some ask) py_compile generated
            = verdict False issues feedback details"
    using empty_derive_not_blank [OF assms(1)] assms(2) ne
    unfolding validate_generated_code_def issues_def syntax_issue_def
    by (cases "py_compile generated") (auto simp: Let_def)
  with cnt show ?thesis by blast
qed

text \<open>
  Claim C3 as stated fails: without a client the same code passes, with no issue at all.
\<close>

theorem validator_flags_empty_derive_counterexample:
  "has_empty_derive ''Agg derive() ~> DeriveDimA''
   \<and> validate_generated_code None (\<lambda>c. Compiles) ''Agg derive() ~> DeriveDimA''
       = py_dict [(''is_valid'', PBool True), (''issues'', PList []),
                  (''feedback'', PStr ''Validation skipped - OpenAI client not available''),
                  (''validation_details'', PDict [])]"
  by code_simp

text \<open>The theorem at that code, with a client and a compiler that accepts it.\<close>

theorem validator_flags_empty_derive_witness:
  "empty_derive_construct ''Agg derive() ~> DeriveDimA''
   \<and> (\<exists>issues feedback details.
         validate_generated_code (Some (\<lambda>c. ReplyNotJson)) (\<lambda>c. Compiles) ''Agg derive() ~> DeriveDimA''
           = verdict False issues feedback details
         \<and> count_list issues issue_empty_derive = 1)"
proof -
  have "has_empty_derive ''Agg derive() ~> DeriveDimA''" by code_simp
  then have c: "empty_derive_construct ''Agg derive() ~> DeriveDimA''"
    by (simp add: has_empty_derive_iff)
  have "\<forall>e. (\<lambda>c. Compiles) ''Agg derive() ~> DeriveDimA'' \<noteq> CompileRaises e" by simp
  from validator_flags_empty_derive [OF c this, of "\<lambda>c. ReplyNotJson"] c show ?thesis by blast
qed

section \<open>The regeneration loop\<close>
































section \<open>The transform data flow script: its steps\<close>


lemma node_kinds:
  "node_kind (source_node cs) = SourceStep"
  "node_kind (select_node t cols) = SelectStep"
  "node_kind (aggregate_node t pk cols) = AggregateStep"
  "node_kind (cast_node u t cc) = CastStep"
  "node_kind (derive_node t dc) = DeriveStep"
  "node_kind (sink_node f t) = SinkStep"
  by (simp_all add: source_node_def select_node_def aggregate_node_def cast_node_def
      derive_node_def sink_node_def)








section \<open>Dimension names\<close>













section \<open>The aggregate step of a dimension\<close>

lemma agg_item_clean: "agg_item a = agg_item b \<Longrightarrow> clean a = clean b"
proof -
  assume "agg_item a = agg_item b"
  then have e: "clean a @ ('' = first('' @ clean a @ '')'') = clean b @ ('' = first('' @ clean b @ '')'')"
    by (simp add: agg_item_def)
  then have "length (clean a @ ('' = first('' @ clean a @ '')'')) = length (clean b @ ('' = first('' @ clean b @ '')''))"
    by (rule arg_cong)
  then have "length (clean a) = length (clean b)" by simp
  with e show ?thesis by (metis append_eq_append_conv)
qed

lemma count_list_map_inj:
  "inj_on f (insert c (set xs)) \<Longrightarrow> count_list (map f xs) (f c) = count_list xs c"
  by (induction xs) (auto simp: inj_on_def)

lemma count_list_distinct: "distinct xs \<Longrightarrow> x \<in> set xs \<Longrightarrow> count_list xs x = 1"
  by (induction xs) (auto simp: count_list_0)

lemma effective_pk_nonempty:
  assumes "columns info \<noteq> []" and "[] \<notin> set (columns info)"
  shows "effective_pk info \<noteq> []"
proof (cases "primary_key info = []")
  case False
  then show ?thesis by (simp add: effective_pk_def)
next
  case True
  show ?thesis
  proof (cases "filter is_id_column (columns info)")
    case Nil
    with True assms show ?thesis by (cases "columns info") (auto simp: effective_pk_def)
  next
    case (Cons p ps)
    then have "p \<in> set (filter is_id_column (columns info))" by simp
    then have "p \<in> set (columns info)" by simp
    with assms have "p \<noteq> []" by auto
    with True Cons show ?thesis by (simp add: effective_pk_def)
  qed
qed

lemma agg_cols_count:
  assumes "distinct cols" and "inj_on clean (insert pk (set cols))" and "c \<in> set cols" and "c \<noteq> pk"
  shows "count_list (agg_cols pk cols) (agg_item c) = 1"
proof -
  let ?others = "filter (\<lambda>col. \<not> (pk \<noteq> [] \<and> col = pk)) cols"
  have sub: "insert c (set ?others) \<subseteq> insert pk (set cols)" using assms(3) by auto
  have "inj_on clean (insert c (set ?others))"
    using inj_on_subset [OF assms(2) sub] .
  then have "inj_on agg_item (insert c (set ?others))"
    using agg_item_clean unfolding inj_on_def by blast
  then have "count_list (map agg_item ?others) (agg_item c) = count_list ?others c"
    by (rule count_list_map_inj)
  also have "\<dots> = 1"
    using assms(1,3,4) by (intro count_list_distinct) auto
  finally show ?thesis by (simp add: agg_cols_def)
qed

lemma agg_cols_elem:
  "item \<in> set (agg_cols pk cols) \<Longrightarrow> pk \<noteq> [] \<Longrightarrow> \<exists>c \<in> set cols. c \<noteq> pk \<and> item = agg_item c"
  by (auto simp: agg_cols_def)

lemma agg_cols_no_key:
  assumes "inj_on clean (insert pk (set cols))" and "pk \<noteq> []"
  shows "agg_item pk \<notin> set (agg_cols pk cols)"
proof
  assume "agg_item pk \<in> set (agg_cols pk cols)"
  from agg_cols_elem [OF this assms(2)]
  obtain c where c: "c \<in> set cols" "c \<noteq> pk" "agg_item pk = agg_item c" by blast
  from agg_item_clean [OF c(3)] have "clean pk = clean c" .
  with assms(1) c(1) have "pk = c" by (auto simp: inj_on_def)
  with c(2) show False by simp
qed

lemma dimension_nodes_aggregate:
  "processed d \<Longrightarrow>
   filter (\<lambda>n. node_kind n = AggregateStep) (dimension_nodes ct ctx d)
     = [aggregate_node (fst d) (effective_pk (snd d)) (columns (snd d))]"
  by (simp add: dimension_nodes_def Let_def node_kinds)

text \<open>
  Claim C4, as the code has it. For a dimension that the generator processes, whose
  columns are listed once each under names that are not empty and that stay different
  from each other and from the primary key once cleaned, the script holds one aggregate
  step: it groups by the cleaned primary key, lists every column other than the key
  exactly once as a \<^verbatim>\<open>first\<close> reduction, lists nothing else, and does not list the key.
\<close>

theorem aggregate_step_columns:
  assumes "processed d" and "[] \<notin> set (columns (snd d))" and "distinct (columns (snd d))"
    and "inj_on clean (insert (effective_pk (snd d)) (set (columns (snd d))))"
  shows "filter (\<lambda>n. node_kind n = AggregateStep) (dimension_nodes ct ctx d)
           = [aggregate_node (fst d) (effective_pk (snd d)) (columns (snd d))]
       \<and> node_text (aggregate_node (fst d) (effective_pk (snd d)) (columns (snd d)))
           = ''\<newline>Select'' @ fst d @ '' aggregate(groupBy('' @ clean (effective_pk (snd d)) @ ''),\<newline>''
             @ join '',\<newline>'' (agg_cols (effective_pk (snd d)) (columns (snd d)))
             @ '') ~> Aggregate'' @ fst d
       \<and> (\<forall>c \<in> set (columns (snd d)). c \<noteq> effective_pk (snd d) \<longrightarrow>
             count_list (agg_cols (effective_pk (snd d)) (columns (snd d))) (agg_item c) = 1)
       \<and> (\<forall>item \<in> set (agg_cols (effective_pk (snd d)) (columns (snd d))).
             \<exists>c \<in> set (columns (snd d)). c \<noteq> effective_pk (snd d) \<and> item = agg_item c)
       \<and> agg_item (effective_pk (snd d)) \<notin> set (agg_cols (effective_pk (snd d)) (columns (snd d)))"
proof -
  have ne: "effective_pk (snd d) \<noteq> []"
    using assms(1,2) by (intro effective_pk_nonempty) (simp_all add: processed_def)
  show ?thesis
  proof (intro conjI ballI impI)
    show "filter (\<lambda>n. node_kind n = AggregateStep) (dimension_nodes ct ctx d)
           = [aggregate_node (fst d) (effective_pk (snd d)) (columns (snd d))]"
      using assms(1) by (rule dimension_nodes_aggregate)
  next
    show "node_text (aggregate_node (fst d) (effective_pk (snd d)) (columns (snd d)))
           = ''\<newline>Select'' @ fst d @ '' aggregate(groupBy('' @ clean (effective_pk (snd d)) @ ''),\<newline>''
             @ join '',\<newline>'' (agg_cols (effective_pk (snd d)) (columns (snd d)))
             @ '') ~> Aggregate'' @ fst d"
      by (simp add: aggregate_node_def)
  next
    fix c assume "c \<in> set (columns (snd d))" "c \<noteq> effective_pk (snd d)"
    with assms(3,4)
    show "count_list (agg_cols (effective_pk (snd d)) (columns (snd d))) (agg_item c) = 1"
      by (intro agg_cols_count)
  next
    fix item assume "item \<in> set (agg_cols (effective_pk (snd d)) (columns (snd d)))"
    from agg_cols_elem [OF this ne]
    show "\<exists>c \<in> set (columns (snd d)). c \<noteq> effective_pk (snd d) \<and> item = agg_item c" .
  next
    show "agg_item (effective_pk (snd d)) \<notin> set (agg_cols (effective_pk (snd d)) (columns (snd d)))"
      using assms(4) ne by (rule agg_cols_no_key)
  qed
qed

text \<open>
  Claim C4 as stated fails: the column \<^verbatim>\<open>a b\<close> is cleaned to the name of the key \<^verbatim>\<open>a_b\<close> and
  listed as an aggregate target beside the grouping by it, and a column that the
  dimension lists twice is reduced twice.
\<close>

theorem aggregate_step_columns_counterexample:
  "map node_text
     (filter (\<lambda>n. node_kind n = AggregateStep)
        (dimension_nodes [] ''Data'' (''DimA'', \<lparr>columns = [''a_b'', ''a b''], primary_key = ''a_b''\<rparr>)))
     = [''\<newline>SelectDimA aggregate(groupBy(a_b),\<newline>     a_b = first(a_b)) ~> AggregateDimA'']
   \<and> map node_text
     (filter (\<lambda>n. node_kind n = AggregateStep)
        (dimension_nodes [] ''Data'' (''DimB'', \<lparr>columns = [''id'', ''x'', ''x''], primary_key = ''id''\<rparr>)))
     = [''\<newline>SelectDimB aggregate(groupBy(id),\<newline>     x = first(x),\<newline>     x = first(x)) ~> AggregateDimB'']"
  by code_simp

text \<open>The theorem at the dimension of the patients.\<close>

theorem aggregate_step_columns_witness:
  "processed patient_dim
   \<and> effective_pk (snd patient_dim) = ''Patient_ID''
   \<and> ''Name'' \<in> set (columns (snd patient_dim))
   \<and> count_list (agg_cols (effective_pk (snd patient_dim)) (columns (snd patient_dim)))
        (agg_item ''Name'') = 1
   \<and> agg_item (effective_pk (snd patient_dim))
        \<notin> set (agg_cols (effective_pk (snd patient_dim)) (columns (snd patient_dim)))
   \<and> map node_text
        (filter (\<lambda>n. node_kind n = AggregateStep) (dimension_nodes [] ''Data'' patient_dim))
       = [''\<newline>SelectDimPatient aggregate(groupBy(Patient_ID),\<newline>     Name = first(Name)) ~> AggregateDimPatient'']"
proof -
  have p: "processed patient_dim" by code_simp
  have pk: "effective_pk (snd patient_dim) = ''Patient_ID''" by code_simp
  have cols: "columns (snd patient_dim) = [''Patient_ID'', ''Name'']"
    by (simp add: patient_dim_def)
  have cl: "clean ''Patient_ID'' = ''Patient_ID''" "clean ''Name'' = ''Name''" by code_simp+
  have h2: "[] \<notin> set (columns (snd patient_dim))" by (simp add: cols)
  have h3: "distinct (columns (snd patient_dim))" by (simp add: cols)
  have h4: "inj_on clean (insert (effective_pk (snd patient_dim)) (set (columns (snd patient_dim))))"
    by (simp add: pk cols cl)
  have m: "''Name'' \<in> set (columns (snd patient_dim))" by (simp add: cols)
  have n: "''Name'' \<noteq> effective_pk (snd patient_dim)" by (simp add: pk)
  have shown: "map node_text
        (filter (\<lambda>n. node_kind n = AggregateStep) (dimension_nodes [] ''Data'' patient_dim))
       = [''\<newline>SelectDimPatient aggregate(groupBy(Patient_ID),\<newline>     Name = first(Name)) ~> AggregateDimPatient'']"
    by code_simp
  note t = aggregate_step_columns [OF p h2 h3 h4, of "[]" "''Data''"]
  from t have c: "\<forall>c \<in> set (columns (snd patient_dim)). c \<noteq> effective_pk (snd patient_dim) \<longrightarrow>
             count_list (agg_cols (effective_pk (snd patient_dim)) (columns (snd patient_dim))) (agg_item c) = 1"
    by (elim conjE)
  from t have k: "agg_item (effective_pk (snd patient_dim))
        \<notin> set (agg_cols (effective_pk (snd patient_dim)) (columns (snd patient_dim)))"
    by (elim conjE)
  from mp [OF bspec [OF c m] n] p pk m k shown show ?thesis by (intro conjI)
qed

end
